theory Spec2Isabelle
  imports Main "HOL-Library.Word"
begin

section \<open>Watchdog: a tracking wrapper around malloc, calloc, realloc and free\<close>

text \<open>
  A shallow embedding of \<^verbatim>\<open>src/Watchdog.c\<close>. The globals of the C file, the part of
  the C heap the file reads and writes, and the effects on the C library that the
  properties talk about (the exit hooks, the calls to the raw allocator, the lines printed)
  form one record that every function takes and returns.

  Naming: C identifiers that start with underscores cannot be written in Isabelle.
  The static functions \<^verbatim>\<open>__watchdog_f\<close> are \<open>watchdog_f\<close>, the entry points
  \<^verbatim>\<open>_watchdog_f\<close> behind the macros are \<open>api_watchdog_f\<close>, and a global
  \<^verbatim>\<open>__g\<close> is the field \<open>g\<close>.
\<close>

subsection \<open>Data\<close>

text \<open>An LP64 target: \<^verbatim>\<open>size_t\<close> and pointers are 64-bit words, NULL is 0, and
  \<^verbatim>\<open>chunk_t\<close> (one pointer) is 8 bytes wide.\<close>

type_synonym size_t = "64 word"
type_synonym addr = "64 word"

definition sizeof_chunk_t :: size_t where
  "sizeof_chunk_t = 8"

datatype call_t = CALL_MALLOC | CALL_CALLOC | CALL_REALLOC | CALL_FREE | CALL_EXIT | CALL_ABORT

record trace_t =
  trace_file :: string
  trace_line :: size_t
  trace_size :: size_t
  trace_func :: call_t

text \<open>A trace list is a chain of trace pointers that only its info holds and whose
  traces are never written after their creation: it is kept by value. Infos are written
  through the pointer in the chunk header while they sit in the registry, so they live in
  a store and the registry is a chain of their addresses.\<close>

record info_t =
  trace_list :: "trace_t list"
  address :: addr
  allocated :: bool

datatype error = Abort | Undefined

text \<open>\<open>Abort\<close> is a failed \<^verbatim>\<open>assert\<close> or a call of \<^verbatim>\<open>abort()\<close>; \<open>Undefined\<close> is
  a read through a pointer that addresses no live object of the expected kind.\<close>

datatype stream_t = Stdout | Stderr | File string

datatype hook = HookTerminate | HookReport | HookCollect

datatype va = VSize size_t | VPtr addr | VInt int | VStr string

datatype raw_call =
    RawMalloc size_t
  | RawCalloc size_t size_t
  | RawRealloc addr size_t
  | RawFree addr
  | RawFclose

text \<open>The macros of \<^verbatim>\<open>Watchdog.h\<close>, which is not among the sources, are parameters.\<close>

record config =
  WATCHDOG_OUTPUT :: string
  WATCHDOG_REPORT :: int
  WATCHDOG_GC :: int
  WATCHDOG_VERBOSE :: int

text \<open>What the C library answers during one call: whether \<^verbatim>\<open>fopen\<close> succeeds, and the
  pointers returned by the raw allocation of the chunk, of the info and of the trace
  (0 when the allocation fails).\<close>

record libc =
  fopen_ok :: bool
  ret_chunk :: addr
  ret_info :: addr
  ret_trace :: addr

record world =
  stream :: "stream_t option"
  initialized :: bool
  info_list :: "addr list option"
  allocations_counter :: size_t
  frees_counter :: size_t
  bytes_allocated :: size_t
  bytes_freed :: size_t
  bytes_collected :: size_t
  info_heap :: "addr \<rightharpoonup> info_t"
  chunk_heap :: "addr \<rightharpoonup> addr"
  atexit_list :: "hook list"
  raw_calls :: "raw_call list"
  written :: "(string \<times> va list) list"

text \<open>\<open>info_heap\<close> holds the live \<^verbatim>\<open>info_t\<close> objects, \<open>chunk_heap\<close> the
  \<^verbatim>\<open>info\<close> field of every live chunk header, keyed by the chunk's address.
  \<open>atexit_list\<close> is the C library's list of exit hooks in registration order,
  \<open>raw_calls\<close> the calls made to the raw allocator for chunks (and \<^verbatim>\<open>fclose\<close>),
  \<open>written\<close> the format and arguments of every \<^verbatim>\<open>fprintf\<close> to the stream
  (the trailing newline of each format is left out).\<close>

definition initial :: world where
  "initial = \<lparr> stream = None, initialized = False, info_list = None,
     allocations_counter = 0, frees_counter = 0,
     bytes_allocated = 0, bytes_freed = 0, bytes_collected = 0,
     info_heap = Map.empty, chunk_heap = Map.empty,
     atexit_list = [], raw_calls = [], written = [] \<rparr>"

subsection \<open>The chain and the C library\<close>

text \<open>Modelled from the spec: \<^verbatim>\<open>Chain.c\<close> is missing. The spec describes an ordered
  sequence with \<open>new\<close> (empty chain), \<open>push\<close> (append at back), \<open>pop\<close> (remove and return
  front, reports emptiness), \<open>back\<close> (peek the last element, nothing on an empty chain)
  and iteration front to back. A chain is a list; a loop that pops until the chain is empty
  and a loop that iterates from the front are recursions over the list, head first.\<close>

definition chain_new :: "'a list" where
  "chain_new = []"

definition chain_push :: "'a list \<Rightarrow> 'a \<Rightarrow> 'a list" where
  "chain_push self data = self @ [data]"

definition chain_back :: "'a list \<Rightarrow> 'a option" where
  "chain_back self = (if self = [] then None else Some (last self))"

text \<open>\<^verbatim>\<open>atexit\<close> appends to the hooks; at exit the C library calls them in the reverse
  order of their registration (C11 7.22.4.4).\<close>

definition atexit :: "hook \<Rightarrow> world \<Rightarrow> world" where
  "atexit h s = s\<lparr>atexit_list := atexit_list s @ [h]\<rparr>"

definition exit_order :: "world \<Rightarrow> hook list" where
  "exit_order s = rev (atexit_list s)"

definition fprintf :: "string \<Rightarrow> va list \<Rightarrow> world \<Rightarrow> world" where
  "fprintf fmt args s = s\<lparr>written := written s @ [(fmt, args)]\<rparr>"

definition raw :: "raw_call \<Rightarrow> world \<Rightarrow> world" where
  "raw c s = s\<lparr>raw_calls := raw_calls s @ [c]\<rparr>"

subsection \<open>Internal functions\<close>

definition watchdog_initialize :: "config \<Rightarrow> libc \<Rightarrow> world \<Rightarrow> error + world" where
  "watchdog_initialize cfg lc s =
    (if initialized s then Inr s
     else
       (case (if WATCHDOG_OUTPUT cfg = ''<stdout>'' then Some Stdout
              else if WATCHDOG_OUTPUT cfg = ''<stderr>'' then Some Stderr
              else if fopen_ok lc then Some (File (WATCHDOG_OUTPUT cfg))
              else None) of
          None \<Rightarrow> Inl Abort
        | Some f \<Rightarrow>
            Inr (fprintf ''[WATCHDOG] INFO: Watchdog Initialized'' []
                  ((atexit HookCollect (atexit HookReport (atexit HookTerminate
                     (s\<lparr>stream := Some f, info_list := Some chain_new\<rparr>))))
                   \<lparr>initialized := True\<rparr>))))"

definition watchdog_call_to_string :: "call_t \<Rightarrow> string" where
  "watchdog_call_to_string call =
    (case call of
       CALL_MALLOC \<Rightarrow> ''malloc''
     | CALL_CALLOC \<Rightarrow> ''calloc''
     | CALL_REALLOC \<Rightarrow> ''realloc''
     | CALL_FREE \<Rightarrow> ''free''
     | CALL_EXIT \<Rightarrow> ''exit''
     | CALL_ABORT \<Rightarrow> ''abort'')"

text \<open>The variadic arguments are a list; reading one of the wrong kind is undefined.\<close>

definition watchdog_log_call ::
    "config \<Rightarrow> call_t \<Rightarrow> string \<Rightarrow> size_t \<Rightarrow> va list \<Rightarrow> world \<Rightarrow> error + world" where
  "watchdog_log_call cfg call file line args s =
    (if \<not> initialized s then Inl Abort
     else if WATCHDOG_VERBOSE cfg \<noteq> 0 then
       (let caller = watchdog_call_to_string call in
        case (call, args) of
          (CALL_MALLOC, VSize sz # VPtr data # _) \<Rightarrow>
            if data \<noteq> 0 then
              Inr (fprintf ''[WATCHDOG] %-5s %zu bytes allocated to address %p'' [VStr [], VSize sz, VPtr data]
                    (fprintf ''[WATCHDOG] INFO: %-7s at %s:%04zu'' [VStr caller, VStr file, VSize line] s))
            else
              Inr (fprintf ''[WATCHDOG] %-5s failed to allocate %zu bytes'' [VStr [], VSize sz]
                    (fprintf ''[WATCHDOG] ERROR: %-7s at %s:%04zu'' [VStr caller, VStr file, VSize line] s))
        | (CALL_CALLOC, VSize sz # VPtr data # _) \<Rightarrow>
            if data \<noteq> 0 then
              Inr (fprintf ''[WATCHDOG] %-5s %zu bytes allocated to address %p'' [VStr [], VSize sz, VPtr data]
                    (fprintf ''[WATCHDOG] INFO: %-7s at %s:%04zu'' [VStr caller, VStr file, VSize line] s))
            else
              Inr (fprintf ''[WATCHDOG] %-5s failed to allocate %zu bytes'' [VStr [], VSize sz]
                    (fprintf ''[WATCHDOG] ERROR: %-7s at %s:%04zu'' [VStr caller, VStr file, VSize line] s))
        | (CALL_REALLOC, VSize sz # VPtr ptr # VPtr data # _) \<Rightarrow>
            if data \<noteq> 0 then
              Inr (fprintf ''[WATCHDOG] %-5s %zu bytes reallocated from address %p to address %p''
                     [VStr [], VSize sz, VPtr ptr, VPtr data]
                    (fprintf ''[WATCHDOG] INFO: %-7s at %s:%04zu'' [VStr caller, VStr file, VSize line] s))
            else
              Inr (fprintf ''[WATCHDOG] %-5s failed to reallocate %zu bytes'' [VStr [], VSize sz]
                    (fprintf ''[WATCHDOG] ERROR: %-7s at %s:%04zu'' [VStr caller, VStr file, VSize line] s))
        | (CALL_FREE, VSize sz # VPtr data # _) \<Rightarrow>
            Inr (fprintf ''[WATCHDOG] %-5s %zu bytes freed from address %p'' [VStr [], VSize sz, VPtr data]
                  (fprintf ''[WATCHDOG] INFO: %-7s at %s:%04zu'' [VStr caller, VStr file, VSize line] s))
        | (CALL_EXIT, VInt exit_code # _) \<Rightarrow>
            Inr (fprintf ''[WATCHDOG] %-5s exit code: %d'' [VStr [], VInt exit_code]
                  (fprintf ''[WATCHDOG] WARN: %-7s at %s:%04zu'' [VStr caller, VStr file, VSize line] s))
        | (CALL_ABORT, _) \<Rightarrow>
            Inr (fprintf ''[WATCHDOG] WARN: %-7s at %s:%04zu'' [VStr caller, VStr file, VSize line] s)
        | _ \<Rightarrow> Inl Undefined)
     else Inr s)"

text \<open>\<^verbatim>\<open>__watchdog_allocate\<close>. A NULL chunk is returned to the caller; a NULL info or
  trace fails its \<^verbatim>\<open>assert\<close>; pushing on a registry that was never created is undefined.\<close>

definition watchdog_allocate ::
    "libc \<Rightarrow> size_t \<Rightarrow> bool \<Rightarrow> string \<Rightarrow> size_t \<Rightarrow> world \<Rightarrow> error + (world \<times> addr)" where
  "watchdog_allocate lc sz clear file line s =
    (let s1 = raw (if clear then RawCalloc 1 (sizeof_chunk_t + sz)
                   else RawMalloc (sizeof_chunk_t + sz)) s;
         chunk = ret_chunk lc
     in if chunk = 0 then Inr (s1, 0)
        else
          (let info = ret_info lc
           in if info = 0 then Inl Abort
              else if ret_trace lc = 0 then Inl Abort
              else
                (case info_list s1 of
                   None \<Rightarrow> Inl Undefined
                 | Some reg \<Rightarrow>
                     (let trace = \<lparr>trace_file = file, trace_line = line, trace_size = sz,
                                    trace_func = (if clear then CALL_CALLOC else CALL_MALLOC)\<rparr>;
                          nfo = \<lparr>trace_list = chain_push chain_new trace,
                                  address = chunk + sizeof_chunk_t, allocated = True\<rparr>
                      in Inr (s1\<lparr>info_heap := (info_heap s1)(info \<mapsto> nfo),
                                  info_list := Some (chain_push reg info),
                                  chunk_heap := (chunk_heap s1)(chunk \<mapsto> info),
                                  bytes_allocated := bytes_allocated s1 + sz,
                                  allocations_counter := allocations_counter s1 + 1\<rparr>,
                              chunk + sizeof_chunk_t)))))"

text \<open>\<^verbatim>\<open>__watchdog_reallocate\<close>. The header is read at \<open>ptr - sizeof_chunk_t\<close>; a NULL
  answer of the raw \<^verbatim>\<open>realloc\<close> is its failure answer, which leaves the old block live;
  on success the old block is gone and the header is written at the new one.\<close>

definition watchdog_reallocate ::
    "libc \<Rightarrow> addr \<Rightarrow> size_t \<Rightarrow> string \<Rightarrow> size_t \<Rightarrow> world \<Rightarrow> error + (world \<times> addr)" where
  "watchdog_reallocate lc ptr sz file line s =
    (let chunk = ptr - sizeof_chunk_t
     in case chunk_heap s chunk of
          None \<Rightarrow> Inl Undefined
        | Some info \<Rightarrow>
            (case info_heap s info of
               None \<Rightarrow> Inl Undefined
             | Some nfo \<Rightarrow>
                 (case chain_back (trace_list nfo) of
                    None \<Rightarrow> Inl Abort
                  | Some last_trace \<Rightarrow>
                      (let old_size = trace_size last_trace;
                           s1 = raw (RawRealloc chunk (sizeof_chunk_t + sz)) s;
                           chunk' = ret_chunk lc
                       in if chunk' = 0 then Inr (s1, 0)
                          else if ret_trace lc = 0 then Inl Abort
                          else
                            (let trace = \<lparr>trace_file = file, trace_line = line, trace_size = sz,
                                           trace_func = CALL_REALLOC\<rparr>;
                                 nfo' = nfo\<lparr>address := chunk' + sizeof_chunk_t, allocated := True,
                                            trace_list := chain_push (trace_list nfo) trace\<rparr>
                             in Inr (s1\<lparr>chunk_heap := ((chunk_heap s1)(chunk := None))(chunk' \<mapsto> info),
                                         info_heap := (info_heap s1)(info \<mapsto> nfo'),
                                         bytes_allocated := bytes_allocated s1 + sz,
                                         bytes_freed := bytes_freed s1 + old_size\<rparr>,
                                     chunk' + sizeof_chunk_t))))))"

text \<open>\<^verbatim>\<open>__watchdog_free\<close>. There is no test of \<open>ptr\<close>: the header is read at
  \<open>ptr - sizeof_chunk_t\<close> whatever \<open>ptr\<close> is.\<close>

definition watchdog_free ::
    "libc \<Rightarrow> addr \<Rightarrow> string \<Rightarrow> size_t \<Rightarrow> world \<Rightarrow> error + (world \<times> size_t)" where
  "watchdog_free lc ptr file line s =
    (let chunk = ptr - sizeof_chunk_t
     in case chunk_heap s chunk of
          None \<Rightarrow> Inl Undefined
        | Some info \<Rightarrow>
            (case info_heap s info of
               None \<Rightarrow> Inl Undefined
             | Some nfo \<Rightarrow>
                 (case chain_back (trace_list nfo) of
                    None \<Rightarrow> Inl Abort
                  | Some last_trace \<Rightarrow>
                      (let bytes = trace_size last_trace
                       in if ret_trace lc = 0 then Inl Abort
                          else
                            (let trace = \<lparr>trace_file = file, trace_line = line, trace_size = 0,
                                           trace_func = CALL_FREE\<rparr>;
                                 nfo' = nfo\<lparr>allocated := False,
                                            trace_list := chain_push (trace_list nfo) trace\<rparr>;
                                 s1 = raw (RawFree chunk)
                                        (s\<lparr>info_heap := (info_heap s)(info \<mapsto> nfo'),
                                           chunk_heap := (chunk_heap s)(chunk := None)\<rparr>)
                             in Inr (s1\<lparr>frees_counter := frees_counter s1 + 1,
                                         bytes_freed := bytes_freed s1 + bytes\<rparr>,
                                     bytes))))))"

text \<open>\<^verbatim>\<open>__watchdog_report\<close>: the registry front to back, each trace list front to back.\<close>

definition report_info :: "info_t \<Rightarrow> world \<Rightarrow> world" where
  "report_info nfo s =
    foldl (\<lambda>s' tr. fprintf ''[WATCHDOG] %-16s %-7s at %65s:%04zu | %2zu bytes were in use''
                      [VStr [], VStr (watchdog_call_to_string (trace_func tr)),
                       VStr (trace_file tr), VSize (trace_line tr), VSize (trace_size tr)] s')
          (fprintf ''[WATCHDOG] %-8s address %p:'' [VStr [], VPtr (address nfo)] s)
          (trace_list nfo)"

fun report_loop :: "addr list \<Rightarrow> world \<Rightarrow> error + world" where
  "report_loop [] s = Inr s"
| "report_loop (current_info # rest) s =
    (if current_info = 0 then Inl Abort
     else case info_heap s current_info of
            None \<Rightarrow> Inl Undefined
          | Some nfo \<Rightarrow> report_loop rest (report_info nfo s))"

definition watchdog_report :: "config \<Rightarrow> world \<Rightarrow> error + world" where
  "watchdog_report cfg s =
    (if \<not> initialized s then Inl Abort
     else if WATCHDOG_REPORT cfg \<noteq> 0 then
       (case info_list s of
          None \<Rightarrow> Inl Undefined
        | Some reg \<Rightarrow>
            (case report_loop reg (fprintf ''[WATCHDOG] INFO: Report'' [] s) of
               Inl e \<Rightarrow> Inl e
             | Inr s1 \<Rightarrow>
                 Inr (fprintf ''[WATCHDOG] %-5s %zu bytes allocated, %zu bytes freed (whereof %zu bytes collected on exit)''
                        [VStr [], VSize (bytes_allocated s1), VSize (bytes_freed s1),
                         VSize (bytes_collected s1)]
                       (fprintf ''[WATCHDOG] %-5s %zu allocations, %zu frees''
                          [VStr [], VSize (allocations_counter s1), VSize (frees_counter s1)] s1))))
     else Inr s)"

text \<open>\<^verbatim>\<open>__watchdog_collect\<close>. The loop visits the registry front to back; nothing
  pushes on the registry meanwhile. The last trace is read before the test of the flag,
  the internal free goes through \<open>watchdog_free\<close> with the info's address, and the size
  added to \<open>bytes_collected\<close> is the one of the trace read before the free. \<open>lcs k\<close> is
  what the C library answers during the \<open>k\<close>-th iteration.\<close>

fun collect_loop :: "(nat \<Rightarrow> libc) \<Rightarrow> nat \<Rightarrow> addr list \<Rightarrow> world \<Rightarrow> error + world" where
  "collect_loop lcs k [] s = Inr s"
| "collect_loop lcs k (current_info # rest) s =
    (if current_info = 0 then Inl Abort
     else case info_heap s current_info of
            None \<Rightarrow> Inl Undefined
          | Some nfo \<Rightarrow>
              (case chain_back (trace_list nfo) of
                 None \<Rightarrow> Inl Abort
               | Some current_trace \<Rightarrow>
                   if allocated nfo then
                     (let s1 = fprintf ''[WATCHDOG] %-16s %-7s at %65s:%04zu | %2zu bytes still allocated''
                                 [VStr [], VStr (watchdog_call_to_string (trace_func current_trace)),
                                  VStr (trace_file current_trace), VSize (trace_line current_trace),
                                  VSize (trace_size current_trace)]
                                (fprintf ''[WATCHDOG] %-8s address %p:'' [VStr [], VPtr (address nfo)] s)
                      in case watchdog_free (lcs k) (address nfo) ''<garbage collector>'' 0 s1 of
                           Inl e \<Rightarrow> Inl e
                         | Inr (s2, _) \<Rightarrow>
                             collect_loop lcs (Suc k) rest
                               (s2\<lparr>bytes_collected := bytes_collected s2 + trace_size current_trace\<rparr>))
                   else collect_loop lcs (Suc k) rest s))"

definition watchdog_collect :: "config \<Rightarrow> (nat \<Rightarrow> libc) \<Rightarrow> world \<Rightarrow> error + world" where
  "watchdog_collect cfg lcs s =
    (if \<not> initialized s then Inl Abort
     else if WATCHDOG_GC cfg \<noteq> 0 then
       (case info_list s of
          None \<Rightarrow> Inl Undefined
        | Some reg \<Rightarrow>
            (case collect_loop lcs 0 reg (fprintf ''[WATCHDOG] WARN: Garbage Collector'' [] s) of
               Inl e \<Rightarrow> Inl e
             | Inr s1 \<Rightarrow>
                 Inr (fprintf ''[WATCHDOG] %-5s %zu bytes collected''
                        [VStr [], VSize (bytes_collected s1)] s1)))
     else Inr s)"

text \<open>\<^verbatim>\<open>__watchdog_terminate\<close> pops every info off the registry, drains and deletes its
  trace list and frees the info, then deletes the registry through a reference to its
  pointer, which is taken to be NULL afterwards.\<close>

fun terminate_loop :: "addr list \<Rightarrow> world \<Rightarrow> error + world" where
  "terminate_loop [] s = Inr s"
| "terminate_loop (current_info # rest) s =
    (if current_info = 0 then Inl Abort
     else case info_heap s current_info of
            None \<Rightarrow> Inl Undefined
          | Some nfo \<Rightarrow> terminate_loop rest (s\<lparr>info_heap := (info_heap s)(current_info := None)\<rparr>))"

definition watchdog_terminate :: "world \<Rightarrow> error + world" where
  "watchdog_terminate s =
    (if \<not> initialized s then Inl Abort
     else case info_list s of
            None \<Rightarrow> Inl Undefined
          | Some reg \<Rightarrow>
              (case terminate_loop reg s of
                 Inl e \<Rightarrow> Inl e
               | Inr s1 \<Rightarrow>
                   (let s2 = fprintf ''[WATCHDOG] INFO: Watchdog Terminated'' [] (s1\<lparr>info_list := None\<rparr>)
                    in Inr (if stream s2 \<noteq> Some Stdout \<and> stream s2 \<noteq> Some Stderr
                            then raw RawFclose s2 else s2))))"

subsection \<open>Process exit\<close>

definition run_hook :: "config \<Rightarrow> (nat \<Rightarrow> libc) \<Rightarrow> hook \<Rightarrow> world \<Rightarrow> error + world" where
  "run_hook cfg lcs h s =
    (case h of
       HookTerminate \<Rightarrow> watchdog_terminate s
     | HookReport \<Rightarrow> watchdog_report cfg s
     | HookCollect \<Rightarrow> watchdog_collect cfg lcs s)"

fun run_hooks :: "config \<Rightarrow> (nat \<Rightarrow> libc) \<Rightarrow> hook list \<Rightarrow> world \<Rightarrow> error + world" where
  "run_hooks cfg lcs [] s = Inr s"
| "run_hooks cfg lcs (h # hs) s =
    (case run_hook cfg lcs h s of Inl e \<Rightarrow> Inl e | Inr s' \<Rightarrow> run_hooks cfg lcs hs s')"

definition libc_exit :: "config \<Rightarrow> (nat \<Rightarrow> libc) \<Rightarrow> world \<Rightarrow> error + world" where
  "libc_exit cfg lcs s = run_hooks cfg lcs (exit_order s) s"

subsection \<open>Entry points\<close>

definition api_watchdog_malloc ::
    "config \<Rightarrow> libc \<Rightarrow> size_t \<Rightarrow> string \<Rightarrow> size_t \<Rightarrow> world \<Rightarrow> error + (world \<times> addr)" where
  "api_watchdog_malloc cfg lc sz file line s =
    (case watchdog_initialize cfg lc s of
       Inl e \<Rightarrow> Inl e
     | Inr s1 \<Rightarrow>
         (case watchdog_allocate lc sz False file line s1 of
            Inl e \<Rightarrow> Inl e
          | Inr (s2, data) \<Rightarrow>
              (case watchdog_log_call cfg CALL_MALLOC file line [VSize sz, VPtr data] s2 of
                 Inl e \<Rightarrow> Inl e
               | Inr s3 \<Rightarrow> Inr (s3, data))))"

definition api_watchdog_calloc ::
    "config \<Rightarrow> libc \<Rightarrow> size_t \<Rightarrow> size_t \<Rightarrow> string \<Rightarrow> size_t \<Rightarrow> world \<Rightarrow> error + (world \<times> addr)" where
  "api_watchdog_calloc cfg lc num sz file line s =
    (case watchdog_initialize cfg lc s of
       Inl e \<Rightarrow> Inl e
     | Inr s1 \<Rightarrow>
         (let actual_size = num * sz
          in case watchdog_allocate lc actual_size True file line s1 of
               Inl e \<Rightarrow> Inl e
             | Inr (s2, data) \<Rightarrow>
                 (case watchdog_log_call cfg CALL_CALLOC file line [VSize actual_size, VPtr data] s2 of
                    Inl e \<Rightarrow> Inl e
                  | Inr s3 \<Rightarrow> Inr (s3, data))))"

definition api_watchdog_realloc ::
    "config \<Rightarrow> libc \<Rightarrow> addr \<Rightarrow> size_t \<Rightarrow> string \<Rightarrow> size_t \<Rightarrow> world \<Rightarrow> error + (world \<times> addr)" where
  "api_watchdog_realloc cfg lc ptr sz file line s =
    (case watchdog_initialize cfg lc s of
       Inl e \<Rightarrow> Inl e
     | Inr s1 \<Rightarrow>
         (case watchdog_reallocate lc ptr sz file line s1 of
            Inl e \<Rightarrow> Inl e
          | Inr (s2, data) \<Rightarrow>
              (case watchdog_log_call cfg CALL_REALLOC file line [VSize sz, VPtr ptr, VPtr data] s2 of
                 Inl e \<Rightarrow> Inl e
               | Inr s3 \<Rightarrow> Inr (s3, data))))"

definition api_watchdog_free ::
    "config \<Rightarrow> libc \<Rightarrow> addr \<Rightarrow> string \<Rightarrow> size_t \<Rightarrow> world \<Rightarrow> error + world" where
  "api_watchdog_free cfg lc ptr file line s =
    (case watchdog_initialize cfg lc s of
       Inl e \<Rightarrow> Inl e
     | Inr s1 \<Rightarrow>
         (case watchdog_free lc ptr file line s1 of
            Inl e \<Rightarrow> Inl e
          | Inr (s2, bytes) \<Rightarrow>
              watchdog_log_call cfg CALL_FREE file line [VSize bytes, VPtr ptr] s2))"

definition api_watchdog_exit ::
    "config \<Rightarrow> libc \<Rightarrow> (nat \<Rightarrow> libc) \<Rightarrow> int \<Rightarrow> string \<Rightarrow> size_t \<Rightarrow> world \<Rightarrow> error + world" where
  "api_watchdog_exit cfg lc lcs status file line s =
    (case watchdog_initialize cfg lc s of
       Inl e \<Rightarrow> Inl e
     | Inr s1 \<Rightarrow>
         (case watchdog_log_call cfg CALL_EXIT file line [VInt status] s1 of
            Inl e \<Rightarrow> Inl e
          | Inr s2 \<Rightarrow> libc_exit cfg lcs s2))"

definition api_watchdog_abort ::
    "config \<Rightarrow> libc \<Rightarrow> string \<Rightarrow> size_t \<Rightarrow> world \<Rightarrow> error + world" where
  "api_watchdog_abort cfg lc file line s =
    (case watchdog_initialize cfg lc s of
       Inl e \<Rightarrow> Inl e
     | Inr s1 \<Rightarrow>
         (case watchdog_log_call cfg CALL_ABORT file line [] s1 of
            Inl e \<Rightarrow> Inl e
          | Inr s2 \<Rightarrow> Inl Abort))"

subsection \<open>Sequences of calls\<close>

text \<open>A program is a sequence of calls of the four allocation entry points, each with
  the answers the C library gives during it.\<close>

datatype request =
    Allocate size_t string size_t
  | ZeroAllocate size_t size_t string size_t
  | Resize addr size_t string size_t
  | Release addr string size_t

fun perform :: "config \<Rightarrow> request \<times> libc \<Rightarrow> world \<Rightarrow> error + world" where
  "perform cfg (Allocate sz file line, lc) s =
    (case api_watchdog_malloc cfg lc sz file line s of Inl e \<Rightarrow> Inl e | Inr (s', _) \<Rightarrow> Inr s')"
| "perform cfg (ZeroAllocate num sz file line, lc) s =
    (case api_watchdog_calloc cfg lc num sz file line s of Inl e \<Rightarrow> Inl e | Inr (s', _) \<Rightarrow> Inr s')"
| "perform cfg (Resize ptr sz file line, lc) s =
    (case api_watchdog_realloc cfg lc ptr sz file line s of Inl e \<Rightarrow> Inl e | Inr (s', _) \<Rightarrow> Inr s')"
| "perform cfg (Release ptr file line, lc) s = api_watchdog_free cfg lc ptr file line s"

fun run :: "config \<Rightarrow> (request \<times> libc) list \<Rightarrow> world \<Rightarrow> error + world" where
  "run cfg [] s = Inr s"
| "run cfg (c # cs) s =
    (case perform cfg c s of Inl e \<Rightarrow> Inl e | Inr s' \<Rightarrow> run cfg cs s')"

subsection \<open>Properties: definitions\<close>

text \<open>The bytes a registry entry stands for: the size of its last trace while it is marked
  allocated, nothing once it is freed. \<open>live_bytes\<close> sums them over the registry, in
  \<^verbatim>\<open>size_t\<close> arithmetic like the counters.\<close>

definition live_size :: "info_t option \<Rightarrow> size_t" where
  "live_size opt =
    (case opt of
       None \<Rightarrow> 0
     | Some nfo \<Rightarrow>
         if allocated nfo
         then (case chain_back (trace_list nfo) of None \<Rightarrow> 0 | Some t \<Rightarrow> trace_size t)
         else 0)"

definition live_bytes :: "world \<Rightarrow> size_t" where
  "live_bytes s =
    (case info_list s of
       None \<Rightarrow> 0
     | Some reg \<Rightarrow> sum_list (map (\<lambda>i. live_size (info_heap s i)) reg))"

text \<open>The shape of the tracking state that the entry points keep: the registry exists exactly
  when the library is initialised, holds distinct non-NULL infos that are live and have a
  trace, every info marked allocated is the one its chunk header points to, and every live
  chunk header points to a registry info that is marked allocated and whose address is just
  past the header.\<close>

definition tracking_ok :: "world \<Rightarrow> bool" where
  "tracking_ok s =
    (case info_list s of
       None \<Rightarrow> \<not> initialized s \<and> chunk_heap s = Map.empty
     | Some reg \<Rightarrow>
         initialized s \<and> distinct reg \<and> 0 \<notin> set reg
         \<and> (\<forall>i \<in> set reg. \<exists>nfo. info_heap s i = Some nfo \<and> trace_list nfo \<noteq> []
                \<and> (allocated nfo \<longrightarrow> chunk_heap s (address nfo - sizeof_chunk_t) = Some i))
         \<and> (\<forall>c i. chunk_heap s c = Some i \<longrightarrow>
                i \<in> set reg
                \<and> (\<exists>nfo. info_heap s i = Some nfo \<and> allocated nfo
                          \<and> address nfo = c + sizeof_chunk_t)))"

definition balanced :: "world \<Rightarrow> bool" where
  "balanced s = (bytes_allocated s - bytes_freed s = live_bytes s)"

text \<open>The contract of the raw allocator that the code relies on: a block it returns is not
  one of the live blocks (\<^verbatim>\<open>realloc\<close> may return the block it was given).
  \<open>honest_run\<close> asks this of every call of a sequence, in the state the call starts from.\<close>

fun libc_honest :: "world \<Rightarrow> request \<times> libc \<Rightarrow> bool" where
  "libc_honest s (Allocate sz file line, lc) =
    (ret_chunk lc \<noteq> 0 \<longrightarrow> chunk_heap s (ret_chunk lc) = None \<and> info_heap s (ret_info lc) = None)"
| "libc_honest s (ZeroAllocate num sz file line, lc) =
    (ret_chunk lc \<noteq> 0 \<longrightarrow> chunk_heap s (ret_chunk lc) = None \<and> info_heap s (ret_info lc) = None)"
| "libc_honest s (Resize ptr sz file line, lc) =
    (ret_chunk lc \<noteq> 0 \<longrightarrow>
       ret_chunk lc = ptr - sizeof_chunk_t \<or> chunk_heap s (ret_chunk lc) = None)"
| "libc_honest s (Release ptr file line, lc) = True"

fun honest_run :: "config \<Rightarrow> (request \<times> libc) list \<Rightarrow> world \<Rightarrow> bool" where
  "honest_run cfg [] s = True"
| "honest_run cfg (c # cs) s =
    (libc_honest s c
     \<and> (case perform cfg c s of Inl e \<Rightarrow> True | Inr s' \<Rightarrow> honest_run cfg cs s'))"

text \<open>What one iteration of the collection loop does to an info and to the world, written
  as a function of the info visited; the loop is compared with the fold of it.\<close>

definition gc_trace :: trace_t where
  "gc_trace = \<lparr>trace_file = ''<garbage collector>'', trace_line = 0, trace_size = 0,
               trace_func = CALL_FREE\<rparr>"

definition is_live :: "info_t option \<Rightarrow> bool" where
  "is_live opt = (case opt of None \<Rightarrow> False | Some nfo \<Rightarrow> allocated nfo)"

definition collect_info :: "info_t \<Rightarrow> info_t" where
  "collect_info nfo =
    (if allocated nfo
     then nfo\<lparr>allocated := False, trace_list := trace_list nfo @ [gc_trace]\<rparr>
     else nfo)"

definition collect_lines :: "info_t option \<Rightarrow> (string \<times> va list) list" where
  "collect_lines opt =
    (case opt of
       None \<Rightarrow> []
     | Some nfo \<Rightarrow>
         if allocated nfo
         then (case chain_back (trace_list nfo) of
                 None \<Rightarrow> []
               | Some t \<Rightarrow>
                   [(''[WATCHDOG] %-8s address %p:'', [VStr [], VPtr (address nfo)]),
                    (''[WATCHDOG] %-16s %-7s at %65s:%04zu | %2zu bytes still allocated'',
                     [VStr [], VStr (watchdog_call_to_string (trace_func t)),
                      VStr (trace_file t), VSize (trace_line t), VSize (trace_size t)])])
         else [])"

definition collect_frees :: "info_t option \<Rightarrow> raw_call list" where
  "collect_frees opt =
    (case opt of
       None \<Rightarrow> []
     | Some nfo \<Rightarrow> if allocated nfo then [RawFree (address nfo - sizeof_chunk_t)] else [])"

definition collected :: "world \<Rightarrow> addr \<Rightarrow> world" where
  "collected s i =
    (case info_heap s i of
       None \<Rightarrow> s
     | Some nfo \<Rightarrow>
         if allocated nfo
         then s\<lparr>info_heap := (info_heap s)(i \<mapsto> collect_info nfo),
                chunk_heap := (chunk_heap s)(address nfo - sizeof_chunk_t := None),
                raw_calls := raw_calls s @ collect_frees (Some nfo),
                written := written s @ collect_lines (Some nfo),
                frees_counter := frees_counter s + 1,
                bytes_freed := bytes_freed s + live_size (Some nfo),
                bytes_collected := bytes_collected s + live_size (Some nfo)\<rparr>
         else s)"

definition collectable :: "world \<Rightarrow> addr list \<Rightarrow> bool" where
  "collectable s rest =
    (distinct rest \<and> 0 \<notin> set rest
     \<and> (\<forall>i \<in> set rest. \<exists>nfo. info_heap s i = Some nfo \<and> trace_list nfo \<noteq> []
            \<and> (allocated nfo \<longrightarrow> chunk_heap s (address nfo - sizeof_chunk_t) = Some i)))"

subsection \<open>Example values\<close>

text \<open>The end-to-end scenario of the specification (allocate 100 bytes at fileA:10, resize to
  250 at fileA:20, release at fileA:30) and a leaking run whose allocator reuses a freed
  block.\<close>

definition example_config :: config where
  "example_config = \<lparr>WATCHDOG_OUTPUT = ''<stdout>'', WATCHDOG_REPORT = 1, WATCHDOG_GC = 1,
                      WATCHDOG_VERBOSE = 0\<rparr>"

definition libc_ok :: libc where
  "libc_ok = \<lparr>fopen_ok = True, ret_chunk = 0x1000, ret_info = 0x2000, ret_trace = 0x3000\<rparr>"

definition libc_moved :: libc where
  "libc_moved = \<lparr>fopen_ok = True, ret_chunk = 0x4000, ret_info = 0x5000, ret_trace = 0x3020\<rparr>"

definition libc_fail :: libc where
  "libc_fail = \<lparr>fopen_ok = True, ret_chunk = 0, ret_info = 0x2000, ret_trace = 0x3000\<rparr>"

definition libc_reuse :: libc where
  "libc_reuse = \<lparr>fopen_ok = True, ret_chunk = 0x1000, ret_info = 0x5000, ret_trace = 0x3040\<rparr>"

definition world_initialized :: world where
  "world_initialized = initial\<lparr>stream := Some Stdout, initialized := True, info_list := Some [],
     atexit_list := [HookTerminate, HookReport, HookCollect],
     written := [(''[WATCHDOG] INFO: Watchdog Initialized'', [])]\<rparr>"

definition trace_allocated :: trace_t where
  "trace_allocated = \<lparr>trace_file = ''fileA'', trace_line = 10, trace_size = 100, trace_func = CALL_MALLOC\<rparr>"

definition trace_resized :: trace_t where
  "trace_resized = \<lparr>trace_file = ''fileA'', trace_line = 20, trace_size = 250, trace_func = CALL_REALLOC\<rparr>"

definition trace_released :: trace_t where
  "trace_released = \<lparr>trace_file = ''fileA'', trace_line = 30, trace_size = 0, trace_func = CALL_FREE\<rparr>"

definition trace_leaked :: trace_t where
  "trace_leaked = \<lparr>trace_file = ''fileB'', trace_line = 5, trace_size = 50, trace_func = CALL_MALLOC\<rparr>"

definition world_allocated :: world where
  "world_allocated = world_initialized\<lparr>
     info_list := Some [0x2000], allocations_counter := 1, bytes_allocated := 100,
     info_heap := [0x2000 \<mapsto> \<lparr>trace_list = [trace_allocated], address = 0x1008, allocated = True\<rparr>],
     chunk_heap := [0x1000 \<mapsto> 0x2000],
     raw_calls := [RawMalloc 108]\<rparr>"

definition world_resized :: world where
  "world_resized = world_allocated\<lparr>
     bytes_allocated := 350, bytes_freed := 100,
     info_heap := [0x2000 \<mapsto> \<lparr>trace_list = [trace_allocated, trace_resized], address = 0x4008,
                                allocated = True\<rparr>],
     chunk_heap := [0x4000 \<mapsto> 0x2000],
     raw_calls := [RawMalloc 108, RawRealloc 0x1000 258]\<rparr>"

definition world_released :: world where
  "world_released = world_resized\<lparr>
     frees_counter := 1, bytes_freed := 350,
     info_heap := [0x2000 \<mapsto> \<lparr>trace_list = [trace_allocated, trace_resized, trace_released],
                                address = 0x4008, allocated = False\<rparr>],
     chunk_heap := Map.empty,
     raw_calls := [RawMalloc 108, RawRealloc 0x1000 258, RawFree 0x4000]\<rparr>"

definition world_freed :: world where
  "world_freed = world_allocated\<lparr>
     frees_counter := 1, bytes_freed := 100,
     info_heap := [0x2000 \<mapsto> \<lparr>trace_list = [trace_allocated, trace_released], address = 0x1008,
                                allocated = False\<rparr>],
     chunk_heap := Map.empty,
     raw_calls := [RawMalloc 108, RawFree 0x1000]\<rparr>"

definition leaky_calls :: "(request \<times> libc) list" where
  "leaky_calls = [(Allocate 100 ''fileA'' 10, libc_ok), (Release 0x1008 ''fileA'' 30, libc_moved),
                  (Allocate 50 ''fileB'' 5, libc_reuse)]"

definition world_leaky :: world where
  "world_leaky = world_initialized\<lparr>
     info_list := Some [0x2000, 0x5000], allocations_counter := 2, frees_counter := 1,
     bytes_allocated := 150, bytes_freed := 100,
     info_heap := [0x2000 \<mapsto> \<lparr>trace_list = [trace_allocated, trace_released], address = 0x1008,
                                allocated = False\<rparr>,
                   0x5000 \<mapsto> \<lparr>trace_list = [trace_leaked], address = 0x1008, allocated = True\<rparr>],
     chunk_heap := [0x1000 \<mapsto> 0x5000],
     raw_calls := [RawMalloc 108, RawFree 0x1000, RawMalloc 58]\<rparr>"

section \<open>Properties\<close>

subsection \<open>Unfolding sets and the scenario\<close>

lemmas example_defs = example_config_def libc_ok_def libc_moved_def libc_reuse_def libc_fail_def
  world_initialized_def world_allocated_def world_resized_def world_released_def world_leaky_def world_freed_def
  trace_allocated_def trace_resized_def trace_released_def trace_leaked_def leaky_calls_def
  initial_def

lemmas code_defs = api_watchdog_malloc_def api_watchdog_calloc_def api_watchdog_realloc_def
  api_watchdog_free_def watchdog_initialize_def watchdog_allocate_def watchdog_reallocate_def
  watchdog_free_def watchdog_log_call_def atexit_def fprintf_def raw_def chain_new_def
  chain_push_def chain_back_def sizeof_chunk_t_def Let_def

lemma scenario_allocate:
  "api_watchdog_malloc example_config libc_ok 100 ''fileA'' 10 initial = Inr (world_allocated, 0x1008)"
  by (simp add: api_watchdog_malloc_def watchdog_initialize_def watchdog_allocate_def
      watchdog_log_call_def example_config_def libc_ok_def initial_def world_allocated_def
      world_initialized_def trace_allocated_def atexit_def fprintf_def raw_def chain_new_def
      chain_push_def sizeof_chunk_t_def Let_def)

lemma scenario_resize:
  "api_watchdog_realloc example_config libc_moved 0x1008 250 ''fileA'' 20 world_allocated
     = Inr (world_resized, 0x4008)"
  by (simp add: api_watchdog_realloc_def watchdog_initialize_def watchdog_reallocate_def
      watchdog_log_call_def example_config_def libc_moved_def initial_def world_allocated_def
      world_resized_def trace_resized_def
      world_initialized_def trace_allocated_def fprintf_def raw_def chain_back_def
      chain_push_def sizeof_chunk_t_def Let_def)

lemma scenario_release:
  "api_watchdog_free example_config libc_ok 0x4008 ''fileA'' 30 world_resized = Inr world_released"
  by (simp add: api_watchdog_free_def watchdog_initialize_def watchdog_free_def
      watchdog_log_call_def example_config_def libc_ok_def initial_def world_allocated_def
      world_resized_def world_released_def trace_resized_def trace_released_def
      world_initialized_def trace_allocated_def fprintf_def raw_def chain_back_def
      chain_push_def sizeof_chunk_t_def Let_def)

lemma leaky_step1:
  "perform example_config (Allocate 100 ''fileA'' 10, libc_ok) initial = Inr world_allocated"
  by (simp add: example_defs code_defs)

lemma leaky_step2:
  "perform example_config (Release 0x1008 ''fileA'' 30, libc_moved) world_allocated = Inr world_freed"
  by (simp add: example_defs code_defs world_freed_def)

lemma leaky_step3:
  "perform example_config (Allocate 50 ''fileB'' 5, libc_reuse) world_freed = Inr world_leaky"
  by (simp add: example_defs code_defs world_freed_def)

lemma leaky_run: "run example_config leaky_calls initial = Inr world_leaky"
  by (simp add: leaky_calls_def leaky_step1 leaky_step2 leaky_step3 del: perform.simps)

lemma leaky_prefix: "run example_config (take 1 leaky_calls) initial = Inr world_allocated"
  by (simp add: leaky_calls_def leaky_step1 del: perform.simps)

lemma leaky_honest: "honest_run example_config leaky_calls initial"
  by (simp add: leaky_calls_def leaky_step1 leaky_step2 leaky_step3 del: perform.simps)
     (simp add: example_defs world_freed_def)

lemma leaky_live_bytes: "live_bytes world_leaky = 50"
  by (simp add: live_bytes_def live_size_def chain_back_def example_defs)

subsection \<open>Initialisation and logging\<close>

lemma watchdog_initialize_again: "initialized s \<Longrightarrow> watchdog_initialize cfg lc s = Inr s"
  by (simp add: watchdog_initialize_def)

lemma watchdog_initialize_keeps:
  assumes "watchdog_initialize cfg lc s = Inr s1"
  shows "initialized s1" and "info_heap s1 = info_heap s" and "chunk_heap s1 = chunk_heap s"
    and "raw_calls s1 = raw_calls s"
    and "allocations_counter s1 = allocations_counter s" and "frees_counter s1 = frees_counter s"
    and "bytes_allocated s1 = bytes_allocated s" and "bytes_freed s1 = bytes_freed s"
    and "bytes_collected s1 = bytes_collected s"
    and "info_list s1 = (if initialized s then info_list s else Some chain_new)"
  using assms
  by (auto simp add: watchdog_initialize_def atexit_def fprintf_def split: if_splits option.splits)

lemma log_call_alloc:
  "initialized s \<Longrightarrow> call = CALL_MALLOC \<or> call = CALL_CALLOC \<or> call = CALL_FREE \<Longrightarrow>
   \<exists>w. watchdog_log_call cfg call file line [VSize sz, VPtr data] s = Inr (s\<lparr>written := w\<rparr>)"
  apply (cases "WATCHDOG_VERBOSE cfg = 0")
   apply (simp add: watchdog_log_call_def)
   apply (rule exI[of _ "written s"], simp)
  apply (cases "data = 0")
  apply (auto simp add: watchdog_log_call_def fprintf_def Let_def)
  done

lemma log_call_realloc:
  "initialized s \<Longrightarrow>
   \<exists>w. watchdog_log_call cfg CALL_REALLOC file line [VSize sz, VPtr ptr, VPtr data] s = Inr (s\<lparr>written := w\<rparr>)"
  apply (cases "WATCHDOG_VERBOSE cfg = 0")
   apply (simp add: watchdog_log_call_def)
   apply (rule exI[of _ "written s"], simp)
  apply (cases "data = 0")
  apply (auto simp add: watchdog_log_call_def fprintf_def Let_def)
  done

lemma log_call_only_writes:
  "watchdog_log_call cfg call file line args s = Inr s' \<Longrightarrow> s' = s\<lparr>written := written s'\<rparr>"
  by (auto simp add: watchdog_log_call_def fprintf_def Let_def
      split: if_splits call_t.splits list.splits va.splits)

subsection \<open>The tracking invariant\<close>

lemma tracking_ok_frame:
  "info_list s' = info_list s \<Longrightarrow> initialized s' = initialized s \<Longrightarrow> info_heap s' = info_heap s
   \<Longrightarrow> chunk_heap s' = chunk_heap s \<Longrightarrow> tracking_ok s' = tracking_ok s"
  by (simp add: tracking_ok_def cong: option.case_cong)

lemma balanced_frame:
  "info_list s' = info_list s \<Longrightarrow> info_heap s' = info_heap s
   \<Longrightarrow> bytes_allocated s' = bytes_allocated s \<Longrightarrow> bytes_freed s' = bytes_freed s
   \<Longrightarrow> balanced s' = balanced s"
  by (simp add: balanced_def live_bytes_def cong: option.case_cong)

lemma tracking_ok_written [simp]: "tracking_ok (s\<lparr>written := w\<rparr>) = tracking_ok s"
  by (rule tracking_ok_frame) simp_all

lemma balanced_written [simp]: "balanced (s\<lparr>written := w\<rparr>) = balanced s"
  by (rule balanced_frame) simp_all

lemma tracking_ok_raw [simp]: "tracking_ok (raw c s) = tracking_ok s"
  by (rule tracking_ok_frame) (simp_all add: raw_def)

lemma balanced_raw [simp]: "balanced (raw c s) = balanced s"
  by (rule balanced_frame) (simp_all add: raw_def)

lemma tracking_okD:
  assumes "tracking_ok s" and "info_list s = Some reg"
  shows "initialized s" and "distinct reg" and "0 \<notin> set reg"
    and "\<And>i. i \<in> set reg \<Longrightarrow> \<exists>n. info_heap s i = Some n \<and> trace_list n \<noteq> []
                \<and> (allocated n \<longrightarrow> chunk_heap s (address n - sizeof_chunk_t) = Some i)"
    and "\<And>c i. chunk_heap s c = Some i \<Longrightarrow> i \<in> set reg
                \<and> (\<exists>n. info_heap s i = Some n \<and> allocated n \<and> address n = c + sizeof_chunk_t)"
  using assms by (auto simp add: tracking_ok_def)

lemma tracking_ok_chunk:
  assumes "tracking_ok s" and "chunk_heap s c = Some i"
  shows "\<exists>reg n. info_list s = Some reg \<and> i \<in> set reg \<and> info_heap s i = Some n
            \<and> allocated n \<and> address n = c + sizeof_chunk_t \<and> trace_list n \<noteq> []"
proof -
  obtain reg where reg: "info_list s = Some reg"
    using assms by (cases "info_list s") (auto simp add: tracking_ok_def)
  from tracking_okD(5) [OF assms(1) reg assms(2)] tracking_okD(4) [OF assms(1) reg, of i]
  show ?thesis using reg by auto
qed

lemma initialize_tracking_ok:
  "tracking_ok s \<Longrightarrow> balanced s \<Longrightarrow> watchdog_initialize cfg lc s = Inr s1
   \<Longrightarrow> tracking_ok s1 \<and> balanced s1 \<and> initialized s1
       \<and> chunk_heap s1 = chunk_heap s \<and> info_heap s1 = info_heap s"
  by (auto simp add: watchdog_initialize_def tracking_ok_def balanced_def live_bytes_def
      atexit_def fprintf_def chain_new_def split: if_splits option.splits)

lemma initial_tracking_ok: "tracking_ok initial \<and> balanced initial"
  by (simp add: tracking_ok_def balanced_def live_bytes_def initial_def)

lemma sum_list_map_same:
  "(\<And>j. j \<in> set xs \<Longrightarrow> g j = f j) \<Longrightarrow> sum_list (map g xs) = sum_list (map f xs)"
  by (induction xs) auto

lemma sum_list_map_change:
  fixes f g :: "'a \<Rightarrow> 'b::ab_group_add"
  shows "distinct xs \<Longrightarrow> i \<in> set xs \<Longrightarrow> (\<And>j. j \<in> set xs \<Longrightarrow> j \<noteq> i \<Longrightarrow> g j = f j)
    \<Longrightarrow> sum_list (map g xs) = sum_list (map f xs) - f i + g i"
proof (induction xs)
  case Nil
  then show ?case by simp
next
  case (Cons x xs)
  show ?case
  proof (cases "x = i")
    case True
    then have "i \<notin> set xs" using Cons.prems(1) by simp
    then have "sum_list (map g xs) = sum_list (map f xs)"
      using Cons.prems(3) by (intro sum_list_map_same) auto
    then show ?thesis using True by (simp add: algebra_simps)
  next
    case False
    then have "sum_list (map g xs) = sum_list (map f xs) - f i + g i"
      using Cons by auto
    moreover have "g x = f x" using Cons.prems(3) False by simp
    ultimately show ?thesis by (simp add: algebra_simps)
  qed
qed

lemma unat_sum_list:
  fixes ws :: "size_t list"
  shows "unat (sum_list ws) = sum_list (map unat ws) mod 2 ^ 64"
  by (induction ws) (simp_all add: unat_word_ariths mod_simps)

lemma sum_list_indicator:
  "sum_list (map (\<lambda>i. if P i then 1 else 0) xs) = (of_nat (length (filter P xs)) :: size_t)"
  by (induction xs) simp_all

lemma allocate_tracking_ok:
  assumes ok: "tracking_ok s" and bal: "balanced s" and ini: "initialized s"
    and fresh: "ret_chunk lc \<noteq> 0 \<longrightarrow> chunk_heap s (ret_chunk lc) = None \<and> info_heap s (ret_info lc) = None"
    and run: "watchdog_allocate lc sz clear file line s = Inr (s2, p)"
  shows "tracking_ok s2 \<and> balanced s2"
proof (cases "ret_chunk lc = 0")
  case True
  then have "s2 = raw (if clear then RawCalloc 1 (sizeof_chunk_t + sz) else RawMalloc (sizeof_chunk_t + sz)) s"
    using run by (simp add: watchdog_allocate_def Let_def)
  then show ?thesis
    using ok bal by simp
next
  case False
  obtain reg where reg: "info_list s = Some reg"
    using ok ini by (auto simp add: tracking_ok_def split: option.splits)
  have nz: "ret_info lc \<noteq> 0" "ret_trace lc \<noteq> 0"
    using run False by (auto simp add: watchdog_allocate_def Let_def split: if_splits)
  define nfo where "nfo = \<lparr>trace_list = [\<lparr>trace_file = file, trace_line = line, trace_size = sz,
          trace_func = (if clear then CALL_CALLOC else CALL_MALLOC)\<rparr>],
       address = ret_chunk lc + sizeof_chunk_t, allocated = True\<rparr>"
  have s2: "info_list s2 = Some (reg @ [ret_info lc])"
    "info_heap s2 = (info_heap s)(ret_info lc \<mapsto> nfo)"
    "chunk_heap s2 = (chunk_heap s)(ret_chunk lc \<mapsto> ret_info lc)"
    "bytes_allocated s2 = bytes_allocated s + sz" "bytes_freed s2 = bytes_freed s"
    "initialized s2"
    using run False nz reg ini
    by (auto simp add: watchdog_allocate_def Let_def raw_def chain_push_def chain_new_def nfo_def)
  have fr: "chunk_heap s (ret_chunk lc) = None" "info_heap s (ret_info lc) = None"
    using fresh False by auto
  have old: "distinct reg" "0 \<notin> set reg"
    "\<And>i. i \<in> set reg \<Longrightarrow> \<exists>n. info_heap s i = Some n \<and> trace_list n \<noteq> []
                \<and> (allocated n \<longrightarrow> chunk_heap s (address n - sizeof_chunk_t) = Some i)"
    "\<And>c i. chunk_heap s c = Some i \<Longrightarrow> i \<in> set reg
                \<and> (\<exists>n. info_heap s i = Some n \<and> allocated n \<and> address n = c + sizeof_chunk_t)"
    using ok reg by (auto simp add: tracking_ok_def)
  have notin: "ret_info lc \<notin> set reg"
    using old(3) fr(2) by force
  have t1: "distinct (reg @ [ret_info lc])" "0 \<notin> set (reg @ [ret_info lc])"
    using old(1,2) notin nz(1) by auto
  have t2: "\<exists>n. info_heap s2 i = Some n \<and> trace_list n \<noteq> []
                \<and> (allocated n \<longrightarrow> chunk_heap s2 (address n - sizeof_chunk_t) = Some i)"
    if "i \<in> set (reg @ [ret_info lc])" for i
  proof (cases "i = ret_info lc")
    case True
    then show ?thesis by (simp add: s2 nfo_def)
  next
    case False
    then have i: "i \<in> set reg" using that by simp
    from old(3) [OF i] obtain n where n: "info_heap s i = Some n" "trace_list n \<noteq> []"
      "allocated n \<longrightarrow> chunk_heap s (address n - sizeof_chunk_t) = Some i" by blast
    have "allocated n \<Longrightarrow> address n - sizeof_chunk_t \<noteq> ret_chunk lc"
      using n(3) fr(1) by auto
    then show ?thesis using n False by (auto simp add: s2)
  qed
  have t3: "i \<in> set (reg @ [ret_info lc])
                \<and> (\<exists>n. info_heap s2 i = Some n \<and> allocated n \<and> address n = c + sizeof_chunk_t)"
    if "chunk_heap s2 c = Some i" for c i
  proof (cases "c = ret_chunk lc")
    case True
    then show ?thesis using that by (simp add: s2 nfo_def)
  next
    case False
    then have c: "chunk_heap s c = Some i" using that by (simp add: s2)
    from old(4) [OF c] have "i \<in> set reg" and
       "\<exists>n. info_heap s i = Some n \<and> allocated n \<and> address n = c + sizeof_chunk_t" by auto
    moreover have "i \<noteq> ret_info lc" using \<open>i \<in> set reg\<close> notin by auto
    ultimately show ?thesis by (simp add: s2)
  qed
  have tr: "tracking_ok s2"
    unfolding tracking_ok_def using t1 t2 t3 s2(1,6) by simp
  have "live_bytes s2 = sum_list (map (\<lambda>i. live_size (info_heap s2 i)) reg) + live_size (Some nfo)"
    by (simp add: live_bytes_def s2)
  also have "sum_list (map (\<lambda>i. live_size (info_heap s2 i)) reg)
              = sum_list (map (\<lambda>i. live_size (info_heap s i)) reg)"
    using notin by (intro sum_list_map_same) (auto simp add: s2)
  also have "live_size (Some nfo) = sz"
    by (simp add: live_size_def nfo_def chain_back_def)
  finally have "live_bytes s2 = live_bytes s + sz"
    by (simp add: live_bytes_def reg)
  then have "balanced s2"
    using bal by (simp add: balanced_def s2)
  with tr show ?thesis by simp
qed

lemma reallocate_tracking_ok:
  assumes ok: "tracking_ok s" and bal: "balanced s"
    and fresh: "ret_chunk lc \<noteq> 0 \<longrightarrow>
       ret_chunk lc = ptr - sizeof_chunk_t \<or> chunk_heap s (ret_chunk lc) = None"
    and run: "watchdog_reallocate lc ptr sz file line s = Inr (s2, p)"
  shows "tracking_ok s2 \<and> balanced s2"
proof -
  define c where "c = ptr - sizeof_chunk_t"
  obtain info where ch: "chunk_heap s c = Some info"
    using run by (auto simp add: watchdog_reallocate_def c_def Let_def split: option.splits)
  from tracking_ok_chunk [OF ok ch] obtain reg nfo where
    reg: "info_list s = Some reg" and mem: "info \<in> set reg" and nfo: "info_heap s info = Some nfo"
    and al: "allocated nfo" and ad: "address nfo = c + sizeof_chunk_t" and ne: "trace_list nfo \<noteq> []"
    by blast
  have cb: "chain_back (trace_list nfo) = Some (last (trace_list nfo))"
    using ne by (simp add: chain_back_def)
  show ?thesis
  proof (cases "ret_chunk lc = 0")
    case True
    then have "s2 = raw (RawRealloc c (sizeof_chunk_t + sz)) s"
      using run ch nfo cb by (simp add: watchdog_reallocate_def c_def Let_def)
    then show ?thesis using ok bal by simp
  next
    case False
    define c' where "c' = ret_chunk lc"
    define nfo' where "nfo' = nfo\<lparr>address := c' + sizeof_chunk_t, allocated := True,
        trace_list := trace_list nfo @ [\<lparr>trace_file = file, trace_line = line, trace_size = sz,
                                         trace_func = CALL_REALLOC\<rparr>]\<rparr>"
    have nz: "ret_trace lc \<noteq> 0"
      using run ch nfo cb False
      by (auto simp add: watchdog_reallocate_def c_def Let_def split: if_splits)
    have s2: "info_list s2 = Some reg" "initialized s2 = initialized s"
      "info_heap s2 = (info_heap s)(info \<mapsto> nfo')"
      "chunk_heap s2 = ((chunk_heap s)(c := None))(c' \<mapsto> info)"
      "bytes_allocated s2 = bytes_allocated s + sz"
      "bytes_freed s2 = bytes_freed s + trace_size (last (trace_list nfo))"
      using run ch nfo cb False nz reg
      by (auto simp add: watchdog_reallocate_def c_def c'_def nfo'_def Let_def raw_def chain_push_def)
    have fr: "c' = c \<or> chunk_heap s c' = None"
      using fresh False by (simp add: c_def c'_def)
    note old = tracking_okD [OF ok reg]
    have t2: "\<exists>n. info_heap s2 i = Some n \<and> trace_list n \<noteq> []
                \<and> (allocated n \<longrightarrow> chunk_heap s2 (address n - sizeof_chunk_t) = Some i)"
      if i: "i \<in> set reg" for i
    proof (cases "i = info")
      case True
      then show ?thesis by (simp add: s2 nfo'_def)
    next
      case False
      from old(4) [OF i] obtain n where n: "info_heap s i = Some n" "trace_list n \<noteq> []"
        "allocated n \<longrightarrow> chunk_heap s (address n - sizeof_chunk_t) = Some i" by blast
      have "allocated n \<Longrightarrow> address n - sizeof_chunk_t \<noteq> c \<and> address n - sizeof_chunk_t \<noteq> c'"
        using n(3) ch fr False by auto
      then show ?thesis using n False by (auto simp add: s2)
    qed
    have t3: "i \<in> set reg
                \<and> (\<exists>n. info_heap s2 i = Some n \<and> allocated n \<and> address n = k + sizeof_chunk_t)"
      if k: "chunk_heap s2 k = Some i" for k i
    proof (cases "k = c'")
      case True
      then show ?thesis using k mem by (simp add: s2 nfo'_def)
    next
      case False
      then have kc: "k \<noteq> c" and k': "chunk_heap s k = Some i"
        using k by (auto simp add: s2 split: if_splits)
      from old(5) [OF k'] obtain n where n: "i \<in> set reg" "info_heap s i = Some n" "allocated n"
          "address n = k + sizeof_chunk_t" by blast
      have "i \<noteq> info"
      proof
        assume "i = info"
        then have "k + sizeof_chunk_t = c + sizeof_chunk_t" using n nfo ad by simp
        then show False using kc by simp
      qed
      then show ?thesis using n by (simp add: s2)
    qed
    have tr: "tracking_ok s2"
      unfolding tracking_ok_def using old(1,2,3) t2 t3 s2(1,2) by simp
    have "live_bytes s2 = sum_list (map (\<lambda>i. live_size (info_heap s2 i)) reg)"
      by (simp add: live_bytes_def s2)
    also have "\<dots> = sum_list (map (\<lambda>i. live_size (info_heap s i)) reg)
                   - live_size (info_heap s info) + live_size (info_heap s2 info)"
      using old(2) mem by (intro sum_list_map_change) (auto simp add: s2)
    also have "live_size (info_heap s info) = trace_size (last (trace_list nfo))"
      using nfo al cb by (simp add: live_size_def)
    also have "live_size (info_heap s2 info) = sz"
      by (simp add: s2 live_size_def nfo'_def chain_back_def)
    finally have "live_bytes s2 = live_bytes s - trace_size (last (trace_list nfo)) + sz"
      by (simp add: live_bytes_def reg)
    then have "balanced s2"
      using bal by (simp add: balanced_def s2)
    with tr show ?thesis by simp
  qed
qed

lemma free_tracking_ok:
  assumes ok: "tracking_ok s" and bal: "balanced s"
    and run: "watchdog_free lc ptr file line s = Inr (s2, b)"
  shows "tracking_ok s2 \<and> balanced s2"
proof -
  define c where "c = ptr - sizeof_chunk_t"
  obtain info where ch: "chunk_heap s c = Some info"
    using run by (auto simp add: watchdog_free_def c_def Let_def split: option.splits)
  from tracking_ok_chunk [OF ok ch] obtain reg nfo where
    reg: "info_list s = Some reg" and mem: "info \<in> set reg" and nfo: "info_heap s info = Some nfo"
    and al: "allocated nfo" and ad: "address nfo = c + sizeof_chunk_t" and ne: "trace_list nfo \<noteq> []"
    by blast
  have cb: "chain_back (trace_list nfo) = Some (last (trace_list nfo))"
    using ne by (simp add: chain_back_def)
  define nfo' where "nfo' = nfo\<lparr>allocated := False,
        trace_list := trace_list nfo @ [\<lparr>trace_file = file, trace_line = line, trace_size = 0,
                                         trace_func = CALL_FREE\<rparr>]\<rparr>"
  have nz: "ret_trace lc \<noteq> 0"
    using run ch nfo cb
    by (auto simp add: watchdog_free_def c_def Let_def split: if_splits)
  have s2: "info_list s2 = Some reg" "initialized s2 = initialized s"
    "info_heap s2 = (info_heap s)(info \<mapsto> nfo')"
    "chunk_heap s2 = (chunk_heap s)(c := None)"
    "bytes_allocated s2 = bytes_allocated s"
    "bytes_freed s2 = bytes_freed s + trace_size (last (trace_list nfo))"
    using run ch nfo cb nz reg
    by (auto simp add: watchdog_free_def c_def nfo'_def Let_def raw_def chain_push_def)
  note old = tracking_okD [OF ok reg]
  have t2: "\<exists>n. info_heap s2 i = Some n \<and> trace_list n \<noteq> []
              \<and> (allocated n \<longrightarrow> chunk_heap s2 (address n - sizeof_chunk_t) = Some i)"
    if i: "i \<in> set reg" for i
  proof (cases "i = info")
    case True
    then show ?thesis by (simp add: s2 nfo'_def)
  next
    case False
    from old(4) [OF i] obtain n where n: "info_heap s i = Some n" "trace_list n \<noteq> []"
      "allocated n \<longrightarrow> chunk_heap s (address n - sizeof_chunk_t) = Some i" by blast
    have "allocated n \<Longrightarrow> address n - sizeof_chunk_t \<noteq> c"
      using n(3) ch False by auto
    then show ?thesis using n False by (auto simp add: s2)
  qed
  have t3: "i \<in> set reg
              \<and> (\<exists>n. info_heap s2 i = Some n \<and> allocated n \<and> address n = k + sizeof_chunk_t)"
    if k: "chunk_heap s2 k = Some i" for k i
  proof -
    have kc: "k \<noteq> c" and k': "chunk_heap s k = Some i"
      using k by (auto simp add: s2 split: if_splits)
    from old(5) [OF k'] obtain n where n: "i \<in> set reg" "info_heap s i = Some n" "allocated n"
        "address n = k + sizeof_chunk_t" by blast
    have "i \<noteq> info"
    proof
      assume "i = info"
      then have "k + sizeof_chunk_t = c + sizeof_chunk_t" using n nfo ad by simp
      then show False using kc by simp
    qed
    then show ?thesis using n by (simp add: s2)
  qed
  have tr: "tracking_ok s2"
    unfolding tracking_ok_def using old(1,2,3) t2 t3 s2(1,2) by simp
  have "live_bytes s2 = sum_list (map (\<lambda>i. live_size (info_heap s2 i)) reg)"
    by (simp add: live_bytes_def s2)
  also have "\<dots> = sum_list (map (\<lambda>i. live_size (info_heap s i)) reg)
                 - live_size (info_heap s info) + live_size (info_heap s2 info)"
    using old(2) mem by (intro sum_list_map_change) (auto simp add: s2)
  also have "live_size (info_heap s info) = trace_size (last (trace_list nfo))"
    using nfo al cb by (simp add: live_size_def)
  also have "live_size (info_heap s2 info) = 0"
    by (simp add: s2 live_size_def nfo'_def)
  finally have "live_bytes s2 = live_bytes s - trace_size (last (trace_list nfo))"
    by (simp add: live_bytes_def reg)
  then have "balanced s2"
    using bal by (simp add: balanced_def s2)
  with tr show ?thesis by simp
qed

lemma perform_tracking_ok:
  assumes ok: "tracking_ok s" and bal: "balanced s" and hon: "libc_honest s c"
    and run: "perform cfg c s = Inr s'"
  shows "tracking_ok s' \<and> balanced s'"
proof (cases c)
  case (Pair r lc)
  show ?thesis
  proof (cases r)
    case (Allocate sz fl ln)
    from run obtain s1 s2 p s3 where
      i: "watchdog_initialize cfg lc s = Inr s1"
      and a: "watchdog_allocate lc sz False fl ln s1 = Inr (s2, p)"
      and l: "watchdog_log_call cfg CALL_MALLOC fl ln [VSize sz, VPtr p] s2 = Inr s3"
      and e: "s' = s3"
      by (auto simp add: Pair Allocate api_watchdog_malloc_def split: sum.splits)
    note k = initialize_tracking_ok [OF ok bal i]
    have "tracking_ok s2 \<and> balanced s2"
      using allocate_tracking_ok [of s1 lc sz False fl ln s2 p] k a hon
      by (simp add: Pair Allocate)
    then show ?thesis
      using log_call_only_writes [OF l] e
      by (metis tracking_ok_written balanced_written)
  next
    case (ZeroAllocate num sz fl ln)
    from run obtain s1 s2 p s3 where
      i: "watchdog_initialize cfg lc s = Inr s1"
      and a: "watchdog_allocate lc (num * sz) True fl ln s1 = Inr (s2, p)"
      and l: "watchdog_log_call cfg CALL_CALLOC fl ln [VSize (num * sz), VPtr p] s2 = Inr s3"
      and e: "s' = s3"
      by (auto simp add: Pair ZeroAllocate api_watchdog_calloc_def Let_def split: sum.splits)
    note k = initialize_tracking_ok [OF ok bal i]
    have "tracking_ok s2 \<and> balanced s2"
      using allocate_tracking_ok [of s1 lc "num * sz" True fl ln s2 p] k a hon
      by (simp add: Pair ZeroAllocate)
    then show ?thesis
      using log_call_only_writes [OF l] e
      by (metis tracking_ok_written balanced_written)
  next
    case (Resize ptr sz fl ln)
    from run obtain s1 s2 p s3 where
      i: "watchdog_initialize cfg lc s = Inr s1"
      and a: "watchdog_reallocate lc ptr sz fl ln s1 = Inr (s2, p)"
      and l: "watchdog_log_call cfg CALL_REALLOC fl ln [VSize sz, VPtr ptr, VPtr p] s2 = Inr s3"
      and e: "s' = s3"
      by (auto simp add: Pair Resize api_watchdog_realloc_def split: sum.splits)
    note k = initialize_tracking_ok [OF ok bal i]
    have "tracking_ok s2 \<and> balanced s2"
      using reallocate_tracking_ok [of s1 lc ptr sz fl ln s2 p] k a hon
      by (simp add: Pair Resize)
    then show ?thesis
      using log_call_only_writes [OF l] e
      by (metis tracking_ok_written balanced_written)
  next
    case (Release ptr fl ln)
    from run obtain s1 s2 b where
      i: "watchdog_initialize cfg lc s = Inr s1"
      and a: "watchdog_free lc ptr fl ln s1 = Inr (s2, b)"
      and l: "watchdog_log_call cfg CALL_FREE fl ln [VSize b, VPtr ptr] s2 = Inr s'"
      by (auto simp add: Pair Release api_watchdog_free_def split: sum.splits)
    note k = initialize_tracking_ok [OF ok bal i]
    have "tracking_ok s2 \<and> balanced s2"
      using free_tracking_ok [of s1 lc ptr fl ln s2 b] k a
      by simp
    then show ?thesis
      using log_call_only_writes [OF l]
      by (metis tracking_ok_written balanced_written)
  qed
qed

lemma run_tracking_ok:
  "tracking_ok s \<Longrightarrow> balanced s \<Longrightarrow> honest_run cfg cs s \<Longrightarrow> run cfg cs s = Inr s'
   \<Longrightarrow> tracking_ok s' \<and> balanced s'"
proof (induction cs arbitrary: s)
  case Nil
  then show ?case by simp
next
  case (Cons c cs)
  from Cons.prems(4) obtain s1 where s1: "perform cfg c s = Inr s1" and r: "run cfg cs s1 = Inr s'"
    by (auto split: sum.splits)
  have h: "libc_honest s c" and h': "honest_run cfg cs s1"
    using Cons.prems(3) s1 by auto
  from perform_tracking_ok [OF Cons.prems(1,2) h s1] Cons.IH [OF _ _ h' r]
  show ?case by simp
qed

lemma honest_run_take: "honest_run cfg cs s \<Longrightarrow> honest_run cfg (take n cs) s"
proof (induction cs arbitrary: n s)
  case Nil
  then show ?case by simp
next
  case (Cons c cs)
  show ?case
  proof (cases n)
    case 0
    then show ?thesis by simp
  next
    case (Suc m)
    then show ?thesis
      using Cons by (auto split: sum.splits)
  qed
qed

subsection \<open>The collection loop\<close>

lemma collected_other: "j \<noteq> i \<Longrightarrow> info_heap (collected s i) j = info_heap s j"
  by (simp add: collected_def split: option.splits)

lemma collected_fields:
  "frees_counter (collected s i) = frees_counter s + (if is_live (info_heap s i) then 1 else 0)"
  "bytes_freed (collected s i) = bytes_freed s + live_size (info_heap s i)"
  "bytes_collected (collected s i) = bytes_collected s + live_size (info_heap s i)"
  "written (collected s i) = written s @ collect_lines (info_heap s i)"
  "raw_calls (collected s i) = raw_calls s @ collect_frees (info_heap s i)"
  "info_heap (collected s i) i = map_option collect_info (info_heap s i)"
  "info_list (collected s i) = info_list s"
  "initialized (collected s i) = initialized s"
  "bytes_allocated (collected s i) = bytes_allocated s"
  "allocations_counter (collected s i) = allocations_counter s"
  by (simp_all add: collected_def is_live_def live_size_def collect_lines_def collect_frees_def
      collect_info_def split: option.splits)

lemma collectable_step:
  assumes "collectable s (i # rest)"
  shows "collectable (collected s i) rest"
proof -
  from assms obtain nfo where d: "distinct rest" "i \<notin> set rest" "0 \<notin> set rest"
    and nfo: "info_heap s i = Some nfo"
    and ch: "allocated nfo \<longrightarrow> chunk_heap s (address nfo - sizeof_chunk_t) = Some i"
    and rest: "\<And>j. j \<in> set rest \<Longrightarrow> \<exists>n. info_heap s j = Some n \<and> trace_list n \<noteq> []
            \<and> (allocated n \<longrightarrow> chunk_heap s (address n - sizeof_chunk_t) = Some j)"
    by (auto simp add: collectable_def)
  have "\<exists>n. info_heap (collected s i) j = Some n \<and> trace_list n \<noteq> []
            \<and> (allocated n \<longrightarrow> chunk_heap (collected s i) (address n - sizeof_chunk_t) = Some j)"
    if j: "j \<in> set rest" for j
  proof -
    from rest [OF j] obtain n where n: "info_heap s j = Some n" "trace_list n \<noteq> []"
      "allocated n \<longrightarrow> chunk_heap s (address n - sizeof_chunk_t) = Some j" by blast
    have ji: "j \<noteq> i" using j d(2) by auto
    have "chunk_heap (collected s i) (address n - sizeof_chunk_t) = Some j" if "allocated n"
      using that n(3) ch nfo ji by (auto simp add: collected_def)
    then show ?thesis using n ji by (simp add: collected_other)
  qed
  then show ?thesis using d by (simp add: collectable_def)
qed

lemma collect_loop_fold:
  assumes "collectable s rest" and "\<forall>k. ret_trace (lcs k) \<noteq> 0"
  shows "collect_loop lcs k rest s = Inr (foldl collected s rest)"
  using assms(1)
proof (induction rest arbitrary: s k)
  case Nil
  then show ?case by simp
next
  case (Cons i rest)
  from Cons.prems obtain nfo where nz: "i \<noteq> 0"
    and nfo: "info_heap s i = Some nfo" and ne: "trace_list nfo \<noteq> []"
    and ch: "allocated nfo \<longrightarrow> chunk_heap s (address nfo - sizeof_chunk_t) = Some i"
    by (auto simp add: collectable_def)
  have step: "collect_loop lcs k (i # rest) s = collect_loop lcs (Suc k) rest (collected s i)"
  proof (cases "allocated nfo")
    case False
    then show ?thesis using nz nfo ne by (simp add: chain_back_def collected_def)
  next
    case True
    then show ?thesis
      using nz nfo ne ch assms(2)
      apply (simp add: chain_back_def collected_def watchdog_free_def fprintf_def raw_def Let_def
          chain_push_def collect_info_def collect_lines_def collect_frees_def live_size_def
          gc_trace_def)
      apply (rule arg_cong [where f = "collect_loop lcs (Suc k) rest"])
      apply (rule world.equality; simp)
      done
  qed
  show ?case
    using Cons.IH [OF collectable_step [OF Cons.prems]] step by simp
qed

lemma fold_collected_sum:
  fixes m :: "world \<Rightarrow> 'a::comm_monoid_add"
  assumes "\<And>s i. m (collected s i) = m s + g (info_heap s i)"
  shows "distinct rest \<Longrightarrow>
         m (foldl collected s rest) = m s + sum_list (map (\<lambda>i. g (info_heap s i)) rest)"
proof (induction rest arbitrary: s)
  case Nil
  then show ?case by simp
next
  case (Cons i rest)
  have eq: "map (\<lambda>j. g (info_heap (collected s i) j)) rest = map (\<lambda>j. g (info_heap s j)) rest"
    using Cons.prems by (intro map_cong refl) (metis collected_other distinct.simps(2))
  show ?case
    using Cons.prems by (simp add: assms Cons.IH eq add.assoc)
qed

lemma fold_collected_append:
  assumes "\<And>s i. m (collected s i) = m s @ g (info_heap s i)"
  shows "distinct rest \<Longrightarrow>
         m (foldl collected s rest) = m s @ concat (map (\<lambda>i. g (info_heap s i)) rest)"
proof (induction rest arbitrary: s)
  case Nil
  then show ?case by simp
next
  case (Cons i rest)
  have eq: "map (\<lambda>j. g (info_heap (collected s i) j)) rest = map (\<lambda>j. g (info_heap s j)) rest"
    using Cons.prems by (intro map_cong refl) (metis collected_other distinct.simps(2))
  show ?case
    using Cons.prems by (simp add: assms Cons.IH eq)
qed

lemma fold_collected_same:
  assumes "\<And>s i. m (collected s i) = m s"
  shows "m (foldl collected s rest) = m s"
  by (induction rest arbitrary: s) (simp_all add: assms)

lemma fold_collected_outside:
  "j \<notin> set rest \<Longrightarrow> info_heap (foldl collected s rest) j = info_heap s j"
  by (induction rest arbitrary: s) (simp_all add: collected_other)

lemma fold_collected_info:
  "distinct rest \<Longrightarrow> j \<in> set rest
   \<Longrightarrow> info_heap (foldl collected s rest) j = map_option collect_info (info_heap s j)"
proof (induction rest arbitrary: s)
  case Nil
  then show ?case by simp
next
  case (Cons i rest)
  show ?case
  proof (cases "j = i")
    case True
    then show ?thesis
      using Cons.prems by (simp add: fold_collected_outside collected_fields)
  next
    case False
    then show ?thesis
      using Cons by (simp add: collected_other)
  qed
qed

lemma collected_chunk_None: "chunk_heap s c = None \<Longrightarrow> chunk_heap (collected s i) c = None"
  by (simp add: collected_def split: option.splits)

lemma fold_collected_chunk_None:
  "chunk_heap s c = None \<Longrightarrow> chunk_heap (foldl collected s rest) c = None"
  by (induction rest arbitrary: s) (simp_all add: collected_chunk_None)

lemma fold_collected_chunk:
  "distinct rest \<Longrightarrow> j \<in> set rest \<Longrightarrow> info_heap s j = Some nfo \<Longrightarrow> allocated nfo
   \<Longrightarrow> chunk_heap (foldl collected s rest) (address nfo - sizeof_chunk_t) = None"
proof (induction rest arbitrary: s)
  case Nil
  then show ?case by simp
next
  case (Cons i rest)
  show ?case
  proof (cases "j = i")
    case True
    then have "chunk_heap (collected s i) (address nfo - sizeof_chunk_t) = None"
      using Cons.prems by (simp add: collected_def)
    then show ?thesis by (simp add: fold_collected_chunk_None)
  next
    case False
    then show ?thesis
      using Cons by (simp add: collected_other)
  qed
qed

lemma tracking_ok_collectable:
  "tracking_ok s \<Longrightarrow> info_list s = Some reg \<Longrightarrow> collectable (fprintf fmt args s) reg"
  by (simp add: tracking_ok_def collectable_def fprintf_def)

lemma collect_result:
  assumes "tracking_ok s" and "info_list s = Some reg" and "WATCHDOG_GC cfg \<noteq> 0"
    and "\<forall>k. ret_trace (lcs k) \<noteq> 0"
  shows "watchdog_collect cfg lcs s =
      Inr (fprintf ''[WATCHDOG] %-5s %zu bytes collected''
             [VStr [], VSize (bytes_collected
                (foldl collected (fprintf ''[WATCHDOG] WARN: Garbage Collector'' [] s) reg))]
             (foldl collected (fprintf ''[WATCHDOG] WARN: Garbage Collector'' [] s) reg))"
proof -
  have i: "initialized s" using assms(1,2) by (simp add: tracking_ok_def)
  have "collect_loop lcs 0 reg (fprintf ''[WATCHDOG] WARN: Garbage Collector'' [] s)
          = Inr (foldl collected (fprintf ''[WATCHDOG] WARN: Garbage Collector'' [] s) reg)"
    by (rule collect_loop_fold [OF tracking_ok_collectable [OF assms(1,2)] assms(4)])
  then show ?thesis
    using i assms(2,3) by (simp add: watchdog_collect_def)
qed

subsection \<open>C1: order of the exit hooks\<close>

text \<open>C1, as stated: the hooks are registered terminate, report, collect and therefore run at
  exit in the order report, collect, terminate. The registration order is right, the exit
  order is not: the reverse of terminate, report, collect is collect, report, terminate.
  After the first initialisation of the example configuration the exit order is collect,
  report, terminate and differs from the order of the claim.\<close>

theorem exit_order_counterexample:
  "map_sum id exit_order (watchdog_initialize example_config libc_ok initial)
     = Inr [HookCollect, HookReport, HookTerminate]
   \<and> map_sum id exit_order (watchdog_initialize example_config libc_ok initial)
     \<noteq> Inr [HookReport, HookCollect, HookTerminate]"
  by (simp add: watchdog_initialize_def atexit_def fprintf_def exit_order_def initial_def
      example_config_def)

text \<open>C1, amended: a first initialisation that gets its output stream registers terminate,
  report, collect, in this order, after the hooks already there; the exit order, the
  reverse of the registration order, starts with collect, report, terminate; a second
  initialisation registers nothing; and when no other hook is registered, process exit is
  collect, then report, then terminate, each on the state the previous one leaves.\<close>

theorem initialize_registers_hooks:
  assumes "\<not> initialized s"
    and "WATCHDOG_OUTPUT cfg = ''<stdout>'' \<or> WATCHDOG_OUTPUT cfg = ''<stderr>'' \<or> fopen_ok lc"
  shows "\<exists>s'. watchdog_initialize cfg lc s = Inr s'
            \<and> atexit_list s' = atexit_list s @ [HookTerminate, HookReport, HookCollect]
            \<and> exit_order s' = [HookCollect, HookReport, HookTerminate] @ exit_order s
            \<and> watchdog_initialize cfg lc s' = Inr s'
            \<and> (atexit_list s = [] \<longrightarrow>
                 libc_exit cfg lcs s' =
                   (case watchdog_collect cfg lcs s' of
                      Inl e \<Rightarrow> Inl e
                    | Inr s1 \<Rightarrow> (case watchdog_report cfg s1 of
                                   Inl e \<Rightarrow> Inl e
                                 | Inr s2 \<Rightarrow> watchdog_terminate s2)))"
  using assms
  by (auto simp add: watchdog_initialize_def atexit_def fprintf_def exit_order_def libc_exit_def
        run_hook_def split: sum.splits)

theorem initialize_registers_hooks_witness:
  "\<not> initialized initial
   \<and> WATCHDOG_OUTPUT example_config = ''<stdout>''
   \<and> (\<exists>s'. watchdog_initialize example_config libc_ok initial = Inr s'
          \<and> atexit_list s' = [HookTerminate, HookReport, HookCollect]
          \<and> exit_order s' = [HookCollect, HookReport, HookTerminate]
          \<and> libc_exit example_config (\<lambda>k. libc_ok) s' =
                   (case watchdog_collect example_config (\<lambda>k. libc_ok) s' of
                      Inl e \<Rightarrow> Inl e
                    | Inr s1 \<Rightarrow> (case watchdog_report example_config s1 of
                                   Inl e \<Rightarrow> Inl e
                                 | Inr s2 \<Rightarrow> watchdog_terminate s2)))"
  using initialize_registers_hooks [of initial example_config libc_ok "\<lambda>k. libc_ok"]
  by (auto simp add: initial_def example_config_def exit_order_def)

subsection \<open>C2: allocated minus freed bytes is the live bytes\<close>

text \<open>C2: after every prefix of every sequence of calls of the allocation, zero-allocation,
  resize and release entry points that runs from program start without abort or undefined
  behaviour against an honest allocator, \<open>bytes_allocated - bytes_freed\<close> equals the sum
  of the last-trace sizes of the registry entries marked allocated. The equation is one of
  \<^verbatim>\<open>size_t\<close> values (modulo \<open>2 ^ 64\<close>); whenever the sizes add up to less than
  \<open>2 ^ 64\<close> it is an equation of natural numbers.\<close>

theorem counters_balance_live_bytes:
  assumes "honest_run cfg cs initial" and "run cfg (take n cs) initial = Inr s"
  shows "bytes_allocated s - bytes_freed s = live_bytes s
       \<and> (\<forall>reg. info_list s = Some reg
              \<and> sum_list (map (\<lambda>i. unat (live_size (info_heap s i))) reg) < 2 ^ 64
            \<longrightarrow> unat (bytes_allocated s - bytes_freed s)
                  = sum_list (map (\<lambda>i. unat (live_size (info_heap s i))) reg))"
proof -
  have b: "bytes_allocated s - bytes_freed s = live_bytes s"
    using run_tracking_ok [OF _ _ honest_run_take [OF assms(1)] assms(2)] initial_tracking_ok
    by (simp add: balanced_def)
  have "unat (live_bytes s) = sum_list (map (\<lambda>i. unat (live_size (info_heap s i))) reg)"
    if "info_list s = Some reg"
      and "sum_list (map (\<lambda>i. unat (live_size (info_heap s i))) reg) < 2 ^ 64" for reg
    using that by (simp add: live_bytes_def unat_sum_list comp_def)
  with b show ?thesis by simp
qed

theorem counters_balance_witness:
  "honest_run example_config leaky_calls initial
   \<and> run example_config (take 1 leaky_calls) initial = Inr world_allocated
   \<and> bytes_allocated world_allocated - bytes_freed world_allocated = 100
   \<and> live_bytes world_allocated = 100
   \<and> run example_config (take 3 leaky_calls) initial = Inr world_leaky
   \<and> bytes_allocated world_leaky - bytes_freed world_leaky = live_bytes world_leaky
   \<and> live_bytes world_leaky = 50
   \<and> info_list world_leaky = Some [0x2000, 0x5000]
   \<and> sum_list (map (\<lambda>i. unat (live_size (info_heap world_leaky i))) [0x2000, 0x5000]) = 50
   \<and> unat (bytes_allocated world_leaky - bytes_freed world_leaky) = 50"
proof -
  have r: "info_list world_leaky = Some [0x2000, 0x5000]"
    by (simp add: example_defs)
  have n: "sum_list (map (\<lambda>i. unat (live_size (info_heap world_leaky i))) [0x2000, 0x5000]) = 50"
    by (simp add: live_size_def chain_back_def example_defs)
  have f: "run example_config (take 3 leaky_calls) initial = Inr world_leaky"
    using leaky_run by (simp add: leaky_calls_def)
  from counters_balance_live_bytes [OF leaky_honest f]
  have b: "bytes_allocated world_leaky - bytes_freed world_leaky = live_bytes world_leaky"
    and u: "unat (bytes_allocated world_leaky - bytes_freed world_leaky)
             = sum_list (map (\<lambda>i. unat (live_size (info_heap world_leaky i))) [0x2000, 0x5000])"
    using r n by auto
  from counters_balance_live_bytes [OF leaky_honest leaky_prefix]
  have a: "bytes_allocated world_allocated - bytes_freed world_allocated = live_bytes world_allocated"
    by simp
  have la: "live_bytes world_allocated = 100"
    by (simp add: live_bytes_def live_size_def chain_back_def example_defs)
  show ?thesis
    using leaky_honest leaky_prefix f a la b u r n leaky_live_bytes by simp
qed

subsection \<open>C3: releasing NULL\<close>

text \<open>C3 says that a release of the NULL pointer is handled and ignored. The code does
  otherwise: the release entry point has no test of its pointer and reads the chunk header
  at \<open>0 - sizeof_chunk_t\<close>, where no chunk lives, so a release of NULL is undefined
  behaviour, at program start as well as with one tracked allocation.\<close>

theorem release_null_undefined:
  "api_watchdog_free example_config libc_ok 0 ''fileA'' 30 world_allocated = Inl Undefined
   \<and> api_watchdog_free example_config libc_ok 0 ''fileA'' 30 initial = Inl Undefined"
  by (simp add: api_watchdog_free_def watchdog_initialize_def watchdog_free_def
      example_config_def initial_def world_allocated_def world_initialized_def
      atexit_def fprintf_def sizeof_chunk_t_def Let_def)

subsection \<open>C4: accounting of a successful resize\<close>

text \<open>C4: a successful resize of a tracked allocation whose last trace records size A to the
  requested size B adds B to \<open>bytes_allocated\<close> and A to \<open>bytes_freed\<close>, leaves the
  allocation and free counters and the registry as they are, and updates the one info of
  the allocation in place: new address, still allocated, one REALLOC trace of size B
  appended.\<close>

theorem resize_accounting:
  assumes "initialized s"
    and "chunk_heap s (ptr - sizeof_chunk_t) = Some info"
    and "info_heap s info = Some nfo"
    and "chain_back (trace_list nfo) = Some last_trace"
    and "ret_chunk lc \<noteq> 0" and "ret_trace lc \<noteq> 0"
  shows "\<exists>s'. api_watchdog_realloc cfg lc ptr B file line s = Inr (s', ret_chunk lc + sizeof_chunk_t)
            \<and> bytes_allocated s' = bytes_allocated s + B
            \<and> bytes_freed s' = bytes_freed s + trace_size last_trace
            \<and> allocations_counter s' = allocations_counter s
            \<and> frees_counter s' = frees_counter s
            \<and> info_list s' = info_list s
            \<and> info_heap s' = (info_heap s)(info \<mapsto>
                  nfo\<lparr>address := ret_chunk lc + sizeof_chunk_t, allocated := True,
                      trace_list := trace_list nfo @
                        [\<lparr>trace_file = file, trace_line = line, trace_size = B,
                          trace_func = CALL_REALLOC\<rparr>]\<rparr>)
            \<and> chunk_heap s' = ((chunk_heap s)(ptr - sizeof_chunk_t := None))(ret_chunk lc \<mapsto> info)"
proof -
  define s2 where "s2 = (raw (RawRealloc (ptr - sizeof_chunk_t) (sizeof_chunk_t + B)) s)
      \<lparr>chunk_heap := ((chunk_heap s)(ptr - sizeof_chunk_t := None))(ret_chunk lc \<mapsto> info),
       info_heap := (info_heap s)(info \<mapsto>
                  nfo\<lparr>address := ret_chunk lc + sizeof_chunk_t, allocated := True,
                      trace_list := trace_list nfo @
                        [\<lparr>trace_file = file, trace_line = line, trace_size = B,
                          trace_func = CALL_REALLOC\<rparr>]\<rparr>),
       bytes_allocated := bytes_allocated s + B,
       bytes_freed := bytes_freed s + trace_size last_trace\<rparr>"
  have r: "watchdog_reallocate lc ptr B file line s = Inr (s2, ret_chunk lc + sizeof_chunk_t)"
    using assms(2-6) by (simp add: watchdog_reallocate_def Let_def s2_def raw_def chain_push_def)
  have i: "initialized s2" using assms(1) by (simp add: s2_def raw_def)
  obtain w where w: "watchdog_log_call cfg CALL_REALLOC file line
       [VSize B, VPtr ptr, VPtr (ret_chunk lc + sizeof_chunk_t)] s2 = Inr (s2\<lparr>written := w\<rparr>)"
    using log_call_realloc [OF i] by blast
  show ?thesis
    by (simp add: api_watchdog_realloc_def watchdog_initialize_again [OF assms(1)] r w)
       (simp add: s2_def raw_def)
qed

theorem resize_accounting_witness:
  "initialized world_allocated
   \<and> chunk_heap world_allocated (0x1008 - sizeof_chunk_t) = Some 0x2000
   \<and> info_heap world_allocated 0x2000
       = Some \<lparr>trace_list = [trace_allocated], address = 0x1008, allocated = True\<rparr>
   \<and> chain_back [trace_allocated] = Some trace_allocated
   \<and> ret_chunk libc_moved \<noteq> 0 \<and> ret_trace libc_moved \<noteq> 0
   \<and> (\<exists>s'. api_watchdog_realloc example_config libc_moved 0x1008 250 ''fileA'' 20 world_allocated
               = Inr (s', 0x4008)
           \<and> bytes_allocated s' = 100 + 250 \<and> bytes_freed s' = 0 + 100
           \<and> allocations_counter s' = 1 \<and> info_list s' = Some [0x2000]
           \<and> map_option (length \<circ> trace_list) (info_heap s' 0x2000) = Some 2)"
  using resize_accounting [of world_allocated "0x1008" "0x2000"
          "\<lparr>trace_list = [trace_allocated], address = 0x1008, allocated = True\<rparr>"
          trace_allocated libc_moved example_config 250 "''fileA''" 20]
  by (auto simp add: world_allocated_def world_initialized_def initial_def libc_moved_def
        sizeof_chunk_t_def trace_allocated_def chain_back_def)

subsection \<open>C5: a failed resize changes nothing\<close>

text \<open>C5: when the raw resize of a tracked allocation fails, the resize entry point returns
  NULL and the tracking state is the one before the call: same infos (the allocation's info
  with its address, flag and traces), same chunk headers, same registry, same counters.\<close>

theorem resize_failure_changes_nothing:
  assumes "initialized s"
    and "chunk_heap s (ptr - sizeof_chunk_t) = Some info"
    and "info_heap s info = Some nfo"
    and "trace_list nfo \<noteq> []"
    and "ret_chunk lc = 0"
  shows "\<exists>s'. api_watchdog_realloc cfg lc ptr sz file line s = Inr (s', 0)
            \<and> info_heap s' = info_heap s \<and> info_heap s' info = Some nfo
            \<and> chunk_heap s' = chunk_heap s
            \<and> info_list s' = info_list s
            \<and> allocations_counter s' = allocations_counter s
            \<and> frees_counter s' = frees_counter s
            \<and> bytes_allocated s' = bytes_allocated s
            \<and> bytes_freed s' = bytes_freed s
            \<and> bytes_collected s' = bytes_collected s"
proof -
  define s2 where "s2 = raw (RawRealloc (ptr - sizeof_chunk_t) (sizeof_chunk_t + sz)) s"
  have r: "watchdog_reallocate lc ptr sz file line s = Inr (s2, 0)"
    using assms(2-5) by (simp add: watchdog_reallocate_def Let_def s2_def chain_back_def)
  have i: "initialized s2" using assms(1) by (simp add: s2_def raw_def)
  obtain w where w: "watchdog_log_call cfg CALL_REALLOC file line
       [VSize sz, VPtr ptr, VPtr 0] s2 = Inr (s2\<lparr>written := w\<rparr>)"
    using log_call_realloc [OF i] by blast
  show ?thesis
    using assms(3)
    by (simp add: api_watchdog_realloc_def watchdog_initialize_again [OF assms(1)] r w)
       (simp add: s2_def raw_def)
qed

theorem resize_failure_witness:
  "initialized world_allocated
   \<and> chunk_heap world_allocated (0x1008 - sizeof_chunk_t) = Some 0x2000
   \<and> info_heap world_allocated 0x2000
       = Some \<lparr>trace_list = [trace_allocated], address = 0x1008, allocated = True\<rparr>
   \<and> [trace_allocated] \<noteq> []
   \<and> ret_chunk libc_fail = 0
   \<and> (\<exists>s'. api_watchdog_realloc example_config libc_fail 0x1008 250 ''fileA'' 20 world_allocated
               = Inr (s', 0)
           \<and> info_heap s' 0x2000
               = Some \<lparr>trace_list = [trace_allocated], address = 0x1008, allocated = True\<rparr>
           \<and> info_list s' = Some [0x2000]
           \<and> allocations_counter s' = 1 \<and> frees_counter s' = 0
           \<and> bytes_allocated s' = 100 \<and> bytes_freed s' = 0 \<and> bytes_collected s' = 0)"
  using resize_failure_changes_nothing [of world_allocated "0x1008" "0x2000"
          "\<lparr>trace_list = [trace_allocated], address = 0x1008, allocated = True\<rparr>"
          libc_fail example_config 250 "''fileA''" 20]
  by (auto simp add: world_allocated_def world_initialized_def initial_def libc_fail_def
        sizeof_chunk_t_def)

subsection \<open>C6: accounting of a free\<close>

text \<open>C6: freeing a tracked chunk appends one FREE trace of size 0 to its info, marks the
  info not allocated, adds 1 to the free counter and adds to \<open>bytes_freed\<close> the size of the
  last trace before the free, which is also the value returned; the release entry point
  differs from the internal free only in the lines it writes.\<close>

theorem free_accounting:
  assumes "chunk_heap s (ptr - sizeof_chunk_t) = Some info"
    and "info_heap s info = Some nfo"
    and "chain_back (trace_list nfo) = Some last_trace"
    and "ret_trace lc \<noteq> 0"
  shows "\<exists>s'. watchdog_free lc ptr file line s = Inr (s', trace_size last_trace)
            \<and> info_heap s' = (info_heap s)(info \<mapsto>
                  nfo\<lparr>allocated := False,
                      trace_list := trace_list nfo @
                        [\<lparr>trace_file = file, trace_line = line, trace_size = 0,
                          trace_func = CALL_FREE\<rparr>]\<rparr>)
            \<and> frees_counter s' = frees_counter s + 1
            \<and> bytes_freed s' = bytes_freed s + trace_size last_trace
            \<and> allocations_counter s' = allocations_counter s
            \<and> bytes_allocated s' = bytes_allocated s
            \<and> bytes_collected s' = bytes_collected s
            \<and> info_list s' = info_list s
            \<and> chunk_heap s' = (chunk_heap s)(ptr - sizeof_chunk_t := None)
            \<and> raw_calls s' = raw_calls s @ [RawFree (ptr - sizeof_chunk_t)]
            \<and> (initialized s \<longrightarrow>
                 (\<exists>w. api_watchdog_free cfg lc ptr file line s = Inr (s'\<lparr>written := w\<rparr>)))"
proof -
  define s2 where "s2 = s\<lparr>info_heap := (info_heap s)(info \<mapsto>
                  nfo\<lparr>allocated := False,
                      trace_list := trace_list nfo @
                        [\<lparr>trace_file = file, trace_line = line, trace_size = 0,
                          trace_func = CALL_FREE\<rparr>]\<rparr>),
       chunk_heap := (chunk_heap s)(ptr - sizeof_chunk_t := None),
       raw_calls := raw_calls s @ [RawFree (ptr - sizeof_chunk_t)],
       frees_counter := frees_counter s + 1,
       bytes_freed := bytes_freed s + trace_size last_trace\<rparr>"
  have r: "watchdog_free lc ptr file line s = Inr (s2, trace_size last_trace)"
    using assms by (simp add: watchdog_free_def Let_def s2_def raw_def chain_push_def)
  have a: "\<exists>w. api_watchdog_free cfg lc ptr file line s = Inr (s2\<lparr>written := w\<rparr>)" if "initialized s"
  proof -
    have i: "initialized s2" using that by (simp add: s2_def)
    show ?thesis
      using log_call_alloc [OF i, of CALL_FREE]
      by (simp add: api_watchdog_free_def watchdog_initialize_again [OF that] r)
  qed
  show ?thesis
    using a by (simp add: r) (simp add: s2_def)
qed

theorem free_accounting_witness:
  "chunk_heap world_resized (0x4008 - sizeof_chunk_t) = Some 0x2000
   \<and> info_heap world_resized 0x2000
       = Some \<lparr>trace_list = [trace_allocated, trace_resized], address = 0x4008, allocated = True\<rparr>
   \<and> chain_back [trace_allocated, trace_resized] = Some trace_resized
   \<and> ret_trace libc_ok \<noteq> 0
   \<and> initialized world_resized
   \<and> (\<exists>s'. watchdog_free libc_ok 0x4008 ''fileA'' 30 world_resized = Inr (s', 250)
           \<and> info_heap s' 0x2000
               = Some \<lparr>trace_list = [trace_allocated, trace_resized, trace_released],
                        address = 0x4008, allocated = False\<rparr>
           \<and> frees_counter s' = 1 \<and> bytes_freed s' = 100 + 250
           \<and> (\<exists>w. api_watchdog_free example_config libc_ok 0x4008 ''fileA'' 30 world_resized
                    = Inr (s'\<lparr>written := w\<rparr>)))"
  using free_accounting [of world_resized "0x4008" "0x2000"
          "\<lparr>trace_list = [trace_allocated, trace_resized], address = 0x4008, allocated = True\<rparr>"
          trace_resized libc_ok "''fileA''" 30 example_config]
  by (auto simp add: world_resized_def world_allocated_def world_initialized_def initial_def
        libc_ok_def sizeof_chunk_t_def chain_back_def trace_resized_def trace_released_def)

subsection \<open>C7: a failed allocation tracks nothing\<close>

text \<open>C7: when the raw allocation fails, the allocation and zero-allocation entry points
  return NULL, create no info, leave the registry as initialisation left it and leave
  \<open>bytes_allocated\<close> and the allocation counter unchanged.\<close>

theorem allocation_failure_tracks_nothing:
  assumes "ret_chunk lc = 0" and "watchdog_initialize cfg lc s = Inr s1"
  shows "(\<exists>s'. api_watchdog_malloc cfg lc sz file line s = Inr (s', 0)
              \<and> info_heap s' = info_heap s \<and> info_list s' = info_list s1
              \<and> chunk_heap s' = chunk_heap s
              \<and> bytes_allocated s' = bytes_allocated s
              \<and> allocations_counter s' = allocations_counter s)
       \<and> (\<exists>s'. api_watchdog_calloc cfg lc num sz file line s = Inr (s', 0)
              \<and> info_heap s' = info_heap s \<and> info_list s' = info_list s1
              \<and> chunk_heap s' = chunk_heap s
              \<and> bytes_allocated s' = bytes_allocated s
              \<and> allocations_counter s' = allocations_counter s)"
proof -
  note k = watchdog_initialize_keeps [OF assms(2)]
  have a: "watchdog_allocate lc n clear file line s1 =
             Inr (raw (if clear then RawCalloc 1 (sizeof_chunk_t + n) else RawMalloc (sizeof_chunk_t + n)) s1, 0)"
    for n clear
    using assms(1) by (simp add: watchdog_allocate_def Let_def)
  have i: "initialized (raw c s1)" for c
    using k(1) by (simp add: raw_def)
  obtain w where w: "watchdog_log_call cfg CALL_MALLOC file line [VSize sz, VPtr 0] (raw (RawMalloc (sizeof_chunk_t + sz)) s1)
      = Inr ((raw (RawMalloc (sizeof_chunk_t + sz)) s1)\<lparr>written := w\<rparr>)"
    using log_call_alloc [OF i, of CALL_MALLOC] by blast
  obtain w' where w': "watchdog_log_call cfg CALL_CALLOC file line [VSize (num * sz), VPtr 0] (raw (RawCalloc 1 (sizeof_chunk_t + num * sz)) s1)
      = Inr ((raw (RawCalloc 1 (sizeof_chunk_t + num * sz)) s1)\<lparr>written := w'\<rparr>)"
    using log_call_alloc [OF i, of CALL_CALLOC] by blast
  have m: "\<exists>s'. api_watchdog_malloc cfg lc sz file line s = Inr (s', 0)
              \<and> info_heap s' = info_heap s \<and> info_list s' = info_list s1
              \<and> chunk_heap s' = chunk_heap s
              \<and> bytes_allocated s' = bytes_allocated s
              \<and> allocations_counter s' = allocations_counter s"
    by (simp add: api_watchdog_malloc_def assms(2) a w) (simp add: raw_def k)
  have c: "\<exists>s'. api_watchdog_calloc cfg lc num sz file line s = Inr (s', 0)
              \<and> info_heap s' = info_heap s \<and> info_list s' = info_list s1
              \<and> chunk_heap s' = chunk_heap s
              \<and> bytes_allocated s' = bytes_allocated s
              \<and> allocations_counter s' = allocations_counter s"
    by (simp add: api_watchdog_calloc_def assms(2) a w' Let_def) (simp add: raw_def k)
  from m c show ?thesis by blast
qed

theorem allocation_failure_witness:
  "ret_chunk libc_fail = 0
   \<and> watchdog_initialize example_config libc_fail initial = Inr world_initialized
   \<and> (\<exists>s'. api_watchdog_malloc example_config libc_fail 100 ''fileA'' 10 initial = Inr (s', 0)
          \<and> info_heap s' = Map.empty \<and> info_list s' = Some []
          \<and> bytes_allocated s' = 0 \<and> allocations_counter s' = 0)
   \<and> (\<exists>s'. api_watchdog_calloc example_config libc_fail 4 100 ''fileA'' 10 initial = Inr (s', 0)
          \<and> info_heap s' = Map.empty \<and> info_list s' = Some []
          \<and> bytes_allocated s' = 0 \<and> allocations_counter s' = 0)"
proof -
  have h1: "ret_chunk libc_fail = 0"
    by (simp add: libc_fail_def)
  have h2: "watchdog_initialize example_config libc_fail initial = Inr world_initialized"
    by (simp add: watchdog_initialize_def example_config_def initial_def world_initialized_def
        atexit_def fprintf_def chain_new_def)
  show ?thesis
    using allocation_failure_tracks_nothing [OF h1 h2, of 100 "''fileA''" 10 4] h1 h2
    by (auto simp add: initial_def world_initialized_def)
qed

subsection \<open>C8: the collection sweep\<close>

text \<open>C8: with collection on exit enabled, in every state reached by an honest run, the
  collect hook returns; every registry info marked allocated gets its address line and its
  last trace printed as still allocated, is freed through the internal free (flag cleared,
  FREE trace of the garbage collector appended, chunk header gone, raw free called), and
  \<open>bytes_collected\<close> grows by the sum of the last-trace sizes these infos had before their
  free; infos already freed are left as they are and print nothing.\<close>

theorem collect_sweeps_registry:
  assumes "honest_run cfg cs initial" and "run cfg cs initial = Inr s"
    and "info_list s = Some reg" and "WATCHDOG_GC cfg \<noteq> 0"
    and "\<forall>k. ret_trace (lcs k) \<noteq> 0"
  shows "\<exists>s'. watchdog_collect cfg lcs s = Inr s'
            \<and> bytes_collected s' = bytes_collected s + live_bytes s
            \<and> (\<forall>i \<in> set reg. info_heap s' i = map_option collect_info (info_heap s i))
            \<and> (\<forall>i \<in> set reg. \<forall>nfo. info_heap s i = Some nfo \<and> allocated nfo
                   \<longrightarrow> chunk_heap s' (address nfo - sizeof_chunk_t) = None)
            \<and> raw_calls s' = raw_calls s @ concat (map (\<lambda>i. collect_frees (info_heap s i)) reg)
            \<and> written s' = written s @ [(''[WATCHDOG] WARN: Garbage Collector'', [])]
                  @ concat (map (\<lambda>i. collect_lines (info_heap s i)) reg)
                  @ [(''[WATCHDOG] %-5s %zu bytes collected'',
                      [VStr [], VSize (bytes_collected s + live_bytes s)])]
            \<and> info_list s' = Some reg"
proof -
  have ok: "tracking_ok s"
    using run_tracking_ok [OF _ _ assms(1,2)] initial_tracking_ok by simp
  define s0 where "s0 = fprintf ''[WATCHDOG] WARN: Garbage Collector'' [] s"
  define s1 where "s1 = foldl collected s0 reg"
  have d: "distinct reg" using ok assms(3) by (simp add: tracking_ok_def)
  have h0: "info_heap s0 = info_heap s" "bytes_collected s0 = bytes_collected s"
    "raw_calls s0 = raw_calls s" "info_list s0 = info_list s"
    "written s0 = written s @ [(''[WATCHDOG] WARN: Garbage Collector'', [])]"
    by (simp_all add: s0_def fprintf_def)
  have r: "watchdog_collect cfg lcs s =
      Inr (fprintf ''[WATCHDOG] %-5s %zu bytes collected'' [VStr [], VSize (bytes_collected s1)] s1)"
    unfolding s1_def s0_def by (rule collect_result [OF ok assms(3,4,5)])
  have bc: "bytes_collected s1 = bytes_collected s + live_bytes s"
    unfolding s1_def
    by (simp add: fold_collected_sum [where m = bytes_collected and g = live_size, OF _ d]
        collected_fields h0 live_bytes_def assms(3))
  have ih: "\<forall>i \<in> set reg. info_heap s1 i = map_option collect_info (info_heap s i)"
    unfolding s1_def using d by (simp add: fold_collected_info h0)
  have chn: "\<forall>i \<in> set reg. \<forall>nfo. info_heap s i = Some nfo \<and> allocated nfo
                   \<longrightarrow> chunk_heap s1 (address nfo - sizeof_chunk_t) = None"
    unfolding s1_def using d by (auto intro: fold_collected_chunk simp add: h0)
  have rc: "raw_calls s1 = raw_calls s @ concat (map (\<lambda>i. collect_frees (info_heap s i)) reg)"
    unfolding s1_def
    by (simp add: fold_collected_append [where m = raw_calls and g = collect_frees, OF _ d]
        collected_fields h0)
  have wr: "written s1 = written s @ [(''[WATCHDOG] WARN: Garbage Collector'', [])]
                  @ concat (map (\<lambda>i. collect_lines (info_heap s i)) reg)"
    unfolding s1_def
    by (simp add: fold_collected_append [where m = written and g = collect_lines, OF _ d]
        collected_fields h0)
  have il: "info_list s1 = Some reg"
    unfolding s1_def
    by (simp add: fold_collected_same [where m = info_list] collected_fields h0 assms(3))
  show ?thesis
    using bc ih chn rc wr il by (simp add: r fprintf_def)
qed

theorem collect_sweeps_witness:
  "honest_run example_config leaky_calls initial
   \<and> run example_config leaky_calls initial = Inr world_leaky
   \<and> info_list world_leaky = Some [0x2000, 0x5000]
   \<and> WATCHDOG_GC example_config \<noteq> 0
   \<and> (\<forall>k::nat. ret_trace libc_ok \<noteq> 0)
   \<and> (\<exists>s'. watchdog_collect example_config (\<lambda>k. libc_ok) world_leaky = Inr s'
          \<and> bytes_collected s' = 50
          \<and> info_heap s' 0x2000 = Some \<lparr>trace_list = [trace_allocated, trace_released],
                                        address = 0x1008, allocated = False\<rparr>
          \<and> info_heap s' 0x5000 = Some \<lparr>trace_list = [trace_leaked, gc_trace],
                                        address = 0x1008, allocated = False\<rparr>
          \<and> chunk_heap s' 0x1000 = None
          \<and> raw_calls s' = [RawMalloc 108, RawFree 0x1000, RawMalloc 58, RawFree 0x1000]
          \<and> written s' =
              [(''[WATCHDOG] INFO: Watchdog Initialized'', []),
               (''[WATCHDOG] WARN: Garbage Collector'', []),
               (''[WATCHDOG] %-8s address %p:'', [VStr [], VPtr 0x1008]),
               (''[WATCHDOG] %-16s %-7s at %65s:%04zu | %2zu bytes still allocated'',
                [VStr [], VStr ''malloc'', VStr ''fileB'', VSize 5, VSize 50]),
               (''[WATCHDOG] %-5s %zu bytes collected'', [VStr [], VSize 50])])"
proof -
  have r: "info_list world_leaky = Some [0x2000, 0x5000]"
    and g: "WATCHDOG_GC example_config \<noteq> 0"
    and t: "\<forall>k::nat. ret_trace ((\<lambda>k. libc_ok) k) \<noteq> 0"
    by (simp_all add: example_defs)
  from collect_sweeps_registry [OF leaky_honest leaky_run r g t]
  obtain s' where s': "watchdog_collect example_config (\<lambda>k. libc_ok) world_leaky = Inr s'"
    "bytes_collected s' = bytes_collected world_leaky + live_bytes world_leaky"
    "\<forall>i \<in> set [0x2000, 0x5000]. info_heap s' i = map_option collect_info (info_heap world_leaky i)"
    "\<forall>i \<in> set [0x2000, 0x5000]. \<forall>nfo. info_heap world_leaky i = Some nfo \<and> allocated nfo
                   \<longrightarrow> chunk_heap s' (address nfo - sizeof_chunk_t) = None"
    "raw_calls s' = raw_calls world_leaky
        @ concat (map (\<lambda>i. collect_frees (info_heap world_leaky i)) [0x2000, 0x5000])"
    "written s' = written world_leaky @ [(''[WATCHDOG] WARN: Garbage Collector'', [])]
                  @ concat (map (\<lambda>i. collect_lines (info_heap world_leaky i)) [0x2000, 0x5000])
                  @ [(''[WATCHDOG] %-5s %zu bytes collected'',
                      [VStr [], VSize (bytes_collected world_leaky + live_bytes world_leaky)])]"
    by blast
  have "bytes_collected s' = 50"
    using s'(2) by (simp add: leaky_live_bytes) (simp add: example_defs)
  moreover have "info_heap s' 0x2000 = Some \<lparr>trace_list = [trace_allocated, trace_released],
                                        address = 0x1008, allocated = False\<rparr>"
    and "info_heap s' 0x5000 = Some \<lparr>trace_list = [trace_leaked, gc_trace],
                                        address = 0x1008, allocated = False\<rparr>"
    using s'(3) by (simp_all add: collect_info_def example_defs)
  moreover have "chunk_heap s' 0x1000 = None"
    using s'(4) by (simp add: example_defs sizeof_chunk_t_def)
  moreover have "raw_calls s' = [RawMalloc 108, RawFree 0x1000, RawMalloc 58, RawFree 0x1000]"
    using s'(5) by (simp add: collect_frees_def example_defs sizeof_chunk_t_def)
  moreover have "written s' =
              [(''[WATCHDOG] INFO: Watchdog Initialized'', []),
               (''[WATCHDOG] WARN: Garbage Collector'', []),
               (''[WATCHDOG] %-8s address %p:'', [VStr [], VPtr 0x1008]),
               (''[WATCHDOG] %-16s %-7s at %65s:%04zu | %2zu bytes still allocated'',
                [VStr [], VStr ''malloc'', VStr ''fileB'', VSize 5, VSize 50]),
               (''[WATCHDOG] %-5s %zu bytes collected'', [VStr [], VSize 50])]"
    using s'(6)
    by (simp add: live_bytes_def live_size_def collect_lines_def chain_back_def
        watchdog_call_to_string_def example_config_def libc_ok_def world_initialized_def world_leaky_def trace_leaked_def
        trace_allocated_def trace_released_def initial_def)
  ultimately show ?thesis
    using leaky_honest leaky_run r g t s'(1) by auto
qed

subsection \<open>C9: the size of a zero-allocation\<close>

text \<open>C9: the zero-allocation entry point asks for \<open>num * sz\<close> bytes, a product of
  \<^verbatim>\<open>size_t\<close> values that wraps modulo \<open>2 ^ 64\<close> (the raw request is the header width
  plus this product); on success the trace records this product and \<open>bytes_allocated\<close>
  grows by it.\<close>

theorem zero_allocate_requests_product:
  assumes "watchdog_initialize cfg lc s = Inr s1"
    and "info_list s1 = Some reg"
    and "ret_info lc \<noteq> 0" and "ret_trace lc \<noteq> 0"
  shows "\<exists>s'. api_watchdog_calloc cfg lc num sz file line s
               = Inr (s', if ret_chunk lc = 0 then 0 else ret_chunk lc + sizeof_chunk_t)
            \<and> raw_calls s' = raw_calls s @ [RawCalloc 1 (sizeof_chunk_t + num * sz)]
            \<and> unat (num * sz) = (unat num * unat sz) mod 2 ^ 64
            \<and> (ret_chunk lc \<noteq> 0 \<longrightarrow>
                 info_heap s' = (info_heap s)(ret_info lc \<mapsto>
                    \<lparr>trace_list = [\<lparr>trace_file = file, trace_line = line,
                                     trace_size = num * sz, trace_func = CALL_CALLOC\<rparr>],
                     address = ret_chunk lc + sizeof_chunk_t, allocated = True\<rparr>)
                 \<and> info_list s' = Some (reg @ [ret_info lc])
                 \<and> bytes_allocated s' = bytes_allocated s + num * sz
                 \<and> allocations_counter s' = allocations_counter s + 1)"
proof -
  note k = watchdog_initialize_keeps [OF assms(1)]
  have u: "unat (num * sz) = (unat num * unat sz) mod 2 ^ 64"
    by (simp add: unat_word_ariths)
  show ?thesis
  proof (cases "ret_chunk lc = 0")
    case True
    have a: "watchdog_allocate lc (num * sz) True file line s1 =
               Inr (raw (RawCalloc 1 (sizeof_chunk_t + num * sz)) s1, 0)"
      using True by (simp add: watchdog_allocate_def Let_def)
    have i: "initialized (raw (RawCalloc 1 (sizeof_chunk_t + num * sz)) s1)"
      using k(1) by (simp add: raw_def)
    obtain w where w: "watchdog_log_call cfg CALL_CALLOC file line [VSize (num * sz), VPtr 0]
          (raw (RawCalloc 1 (sizeof_chunk_t + num * sz)) s1)
        = Inr ((raw (RawCalloc 1 (sizeof_chunk_t + num * sz)) s1)\<lparr>written := w\<rparr>)"
      using log_call_alloc [OF i, of CALL_CALLOC] by blast
    show ?thesis
      using True u
      by (simp add: api_watchdog_calloc_def assms(1) a w Let_def) (simp add: raw_def k)
  next
    case False
    define s2 where "s2 = (raw (RawCalloc 1 (sizeof_chunk_t + num * sz)) s1)
        \<lparr>info_heap := (info_heap s1)(ret_info lc \<mapsto>
                    \<lparr>trace_list = [\<lparr>trace_file = file, trace_line = line,
                                     trace_size = num * sz, trace_func = CALL_CALLOC\<rparr>],
                     address = ret_chunk lc + sizeof_chunk_t, allocated = True\<rparr>),
         info_list := Some (reg @ [ret_info lc]),
         chunk_heap := (chunk_heap s1)(ret_chunk lc \<mapsto> ret_info lc),
         bytes_allocated := bytes_allocated s1 + num * sz,
         allocations_counter := allocations_counter s1 + 1\<rparr>"
    have a: "watchdog_allocate lc (num * sz) True file line s1 =
               Inr (s2, ret_chunk lc + sizeof_chunk_t)"
      using False assms(2-4)
      by (simp add: watchdog_allocate_def Let_def s2_def raw_def chain_push_def chain_new_def)
    have i: "initialized s2"
      using k(1) by (simp add: s2_def raw_def)
    obtain w where w: "watchdog_log_call cfg CALL_CALLOC file line
          [VSize (num * sz), VPtr (ret_chunk lc + sizeof_chunk_t)] s2 = Inr (s2\<lparr>written := w\<rparr>)"
      using log_call_alloc [OF i, of CALL_CALLOC] by blast
    show ?thesis
      using False u
      by (simp add: api_watchdog_calloc_def assms(1) a w Let_def) (simp add: s2_def raw_def k)
  qed
qed

theorem zero_allocate_witness:
  "watchdog_initialize example_config libc_ok initial = Inr world_initialized
   \<and> info_list world_initialized = Some []
   \<and> ret_info libc_ok \<noteq> 0 \<and> ret_trace libc_ok \<noteq> 0 \<and> ret_chunk libc_ok \<noteq> 0
   \<and> (\<exists>s'. api_watchdog_calloc example_config libc_ok 0x100000001 0x100000000 ''fileA'' 10 initial
              = Inr (s', 0x1008)
          \<and> raw_calls s' = [RawCalloc 1 0x100000008]
          \<and> unat (0x100000001 * 0x100000000 :: size_t) = (0x100000001 * 0x100000000) mod 2 ^ 64
          \<and> map_option (map trace_size \<circ> trace_list) (info_heap s' 0x2000) = Some [0x100000000]
          \<and> info_list s' = Some [0x2000]
          \<and> bytes_allocated s' = 0x100000000
          \<and> allocations_counter s' = 1)"
proof -
  have h1: "watchdog_initialize example_config libc_ok initial = Inr world_initialized"
    by (simp add: watchdog_initialize_def example_config_def initial_def world_initialized_def
        atexit_def fprintf_def chain_new_def)
  have h2: "info_list world_initialized = Some []"
    by (simp add: world_initialized_def)
  have h3: "ret_info libc_ok \<noteq> 0" and h4: "ret_trace libc_ok \<noteq> 0" and h5: "ret_chunk libc_ok \<noteq> 0"
    by (simp_all add: libc_ok_def)
  show ?thesis
    using zero_allocate_requests_product [OF h1 h2 h3 h4, of "0x100000001" "0x100000000" "''fileA''" 10]
      h1 h2 h3 h4 h5
    by (auto simp add: initial_def libc_ok_def sizeof_chunk_t_def)
qed

subsection \<open>C10: collected bytes are also freed bytes\<close>

text \<open>C10: the collection sweep frees through the internal free of a user release, so in
  every state reached by an honest run it adds one to the free counter per collected chunk
  and adds the collected sizes to \<open>bytes_freed\<close> as well as to \<open>bytes_collected\<close>; the
  allocation side of the counters is untouched.\<close>

theorem collect_counts_as_free:
  assumes "honest_run cfg cs initial" and "run cfg cs initial = Inr s"
    and "info_list s = Some reg" and "WATCHDOG_GC cfg \<noteq> 0"
    and "\<forall>k. ret_trace (lcs k) \<noteq> 0"
  shows "\<exists>s'. watchdog_collect cfg lcs s = Inr s'
            \<and> frees_counter s' = frees_counter s
                  + of_nat (length (filter (\<lambda>i. is_live (info_heap s i)) reg))
            \<and> bytes_freed s' = bytes_freed s + live_bytes s
            \<and> bytes_collected s' = bytes_collected s + live_bytes s
            \<and> bytes_freed s' - bytes_freed s = bytes_collected s' - bytes_collected s
            \<and> bytes_allocated s' = bytes_allocated s
            \<and> allocations_counter s' = allocations_counter s"
proof -
  have ok: "tracking_ok s"
    using run_tracking_ok [OF _ _ assms(1,2)] initial_tracking_ok by simp
  define s0 where "s0 = fprintf ''[WATCHDOG] WARN: Garbage Collector'' [] s"
  define s1 where "s1 = foldl collected s0 reg"
  have d: "distinct reg" using ok assms(3) by (simp add: tracking_ok_def)
  have h0: "info_heap s0 = info_heap s" "bytes_collected s0 = bytes_collected s"
    "bytes_freed s0 = bytes_freed s" "frees_counter s0 = frees_counter s"
    "bytes_allocated s0 = bytes_allocated s" "allocations_counter s0 = allocations_counter s"
    by (simp_all add: s0_def fprintf_def)
  have r: "watchdog_collect cfg lcs s =
      Inr (fprintf ''[WATCHDOG] %-5s %zu bytes collected'' [VStr [], VSize (bytes_collected s1)] s1)"
    unfolding s1_def s0_def by (rule collect_result [OF ok assms(3,4,5)])
  have bc: "bytes_collected s1 = bytes_collected s + live_bytes s"
    unfolding s1_def
    by (simp add: fold_collected_sum [where m = bytes_collected and g = live_size, OF _ d]
        collected_fields h0 live_bytes_def assms(3))
  have bf: "bytes_freed s1 = bytes_freed s + live_bytes s"
    unfolding s1_def
    by (simp add: fold_collected_sum [where m = bytes_freed and g = live_size, OF _ d]
        collected_fields h0 live_bytes_def assms(3))
  have fc: "frees_counter s1 = frees_counter s
                  + of_nat (length (filter (\<lambda>i. is_live (info_heap s i)) reg))"
    unfolding s1_def
    by (simp add: fold_collected_sum [where m = frees_counter
            and g = "\<lambda>opt. if is_live opt then 1 else 0", OF _ d]
        collected_fields h0 sum_list_indicator)
  have ba: "bytes_allocated s1 = bytes_allocated s"
    unfolding s1_def
    by (simp add: fold_collected_same [where m = bytes_allocated] collected_fields h0)
  have ac: "allocations_counter s1 = allocations_counter s"
    unfolding s1_def
    by (simp add: fold_collected_same [where m = allocations_counter] collected_fields h0)
  show ?thesis
    using bc bf fc ba ac by (simp add: r fprintf_def)
qed

theorem collect_counts_witness:
  "honest_run example_config leaky_calls initial
   \<and> run example_config leaky_calls initial = Inr world_leaky
   \<and> info_list world_leaky = Some [0x2000, 0x5000]
   \<and> WATCHDOG_GC example_config \<noteq> 0
   \<and> (\<forall>k::nat. ret_trace libc_ok \<noteq> 0)
   \<and> (\<exists>s'. watchdog_collect example_config (\<lambda>k. libc_ok) world_leaky = Inr s'
          \<and> frees_counter s' = 1 + 1
          \<and> bytes_freed s' = 100 + 50
          \<and> bytes_collected s' = 0 + 50
          \<and> bytes_allocated s' = 150
          \<and> allocations_counter s' = 2)"
proof -
  have r: "info_list world_leaky = Some [0x2000, 0x5000]"
    and g: "WATCHDOG_GC example_config \<noteq> 0"
    and t: "\<forall>k::nat. ret_trace ((\<lambda>k. libc_ok) k) \<noteq> 0"
    by (simp_all add: example_defs)
  have l: "length (filter (\<lambda>i. is_live (info_heap world_leaky i)) [0x2000, 0x5000]) = 1"
    by (simp add: is_live_def example_defs)
  from collect_counts_as_free [OF leaky_honest leaky_run r g t]
  obtain s' where s': "watchdog_collect example_config (\<lambda>k. libc_ok) world_leaky = Inr s'"
    "frees_counter s' = frees_counter world_leaky
         + of_nat (length (filter (\<lambda>i. is_live (info_heap world_leaky i)) [0x2000, 0x5000]))"
    "bytes_freed s' = bytes_freed world_leaky + live_bytes world_leaky"
    "bytes_collected s' = bytes_collected world_leaky + live_bytes world_leaky"
    "bytes_allocated s' = bytes_allocated world_leaky"
    "allocations_counter s' = allocations_counter world_leaky"
    by blast
  have "frees_counter s' = 1 + 1" "bytes_freed s' = 100 + 50" "bytes_collected s' = 0 + 50"
    "bytes_allocated s' = 150" "allocations_counter s' = 2"
    using s'(2-6) by (simp_all only: l leaky_live_bytes) (simp_all add: example_defs)
  then show ?thesis
    using leaky_honest leaky_run r g t s'(1) by auto
qed

end
